theory Spec2Isabelle
  imports Main "HOL-Library.Word" "HOL-Library.Monad_Syntax"
begin

unbundle bit_operations_syntax

section \<open>Bytes, buffers and pointers\<close>

text \<open>
  A C buffer is the list of its bytes. A pointer into a buffer is the list of the bytes
  from the pointer to the end of the buffer (\<open>drop off buf\<close> for \<open>buf + off\<close>). Every
  function of \<open>auth.c\<close> returns \<open>None\<close> where the C code reads or writes outside the
  object a pointer refers to, or dereferences \<open>NULL\<close>: undefined behaviour, told apart
  from every error return (\<open>Some (rc, ...)\<close> with \<open>rc \<noteq> 0\<close>).
\<close>

type_synonym u8 = "8 word"
type_synonym u16 = "16 word"
type_synonym u32 = "32 word"
type_synonym bytes = "u8 list"

definition peek :: "bytes \<Rightarrow> nat \<Rightarrow> nat \<Rightarrow> bytes option" where
  "peek m off n = (if off + n \<le> length m then Some (take n (drop off m)) else None)"

definition poke :: "bytes \<Rightarrow> nat \<Rightarrow> bytes \<Rightarrow> bytes option" where
  "poke m off bs =
     (if off + length bs \<le> length m
      then Some (take off m @ bs @ drop (off + length bs) m) else None)"

text \<open>\<open>memset(p, 0, n)\<close>.\<close>

definition memset0 :: "bytes \<Rightarrow> nat \<Rightarrow> bytes option" where
  "memset0 m n = poke m 0 (replicate n 0)"

text \<open>C strings are kept without their terminating NUL; \<open>cstr\<close> appends it.\<close>

definition ascii :: "string \<Rightarrow> bytes" where
  "ascii s = map (\<lambda>c. of_nat (of_char c)) s"

definition cstr :: "string \<Rightarrow> bytes" where
  "cstr s = ascii s @ [0]"

text \<open>Little-endian and big-endian integers, as the wire has them.\<close>

definition le16 :: "u16 \<Rightarrow> bytes" where
  "le16 w = [ucast w, ucast (drop_bit 8 w)]"

definition le32 :: "u32 \<Rightarrow> bytes" where
  "le32 w = [ucast w, ucast (drop_bit 8 w), ucast (drop_bit 16 w), ucast (drop_bit 24 w)]"

definition le_nat :: "bytes \<Rightarrow> nat" where
  "le_nat bs = foldr (\<lambda>b n. unat b + 256 * n) bs 0"

definition be_nat :: "bytes \<Rightarrow> nat" where
  "be_nat bs = foldl (\<lambda>n b. 256 * n + unat b) 0 bs"

definition le16s :: "u16 list \<Rightarrow> bytes" where
  "le16s us = concat (map le16 us)"

text \<open>The \<open>n\<close> bytes of a digest held as a word of \<open>8 * n\<close> bits, first byte first.\<close>

definition digest_bytes :: "nat \<Rightarrow> 'a::len word \<Rightarrow> bytes" where
  "digest_bytes n w = map (\<lambda>i. ucast (drop_bit (8 * (n - 1 - i)) w)) [0..<n]"

text \<open>
  \<open>strncmp\<close> of the kernel's \<open>lib/string.c\<close>: both bytes are read, then compared, and the
  comparison stops after a NUL that both strings share.
\<close>

fun strncmp :: "bytes \<Rightarrow> bytes \<Rightarrow> nat \<Rightarrow> int option" where
  "strncmp cs ct 0 = Some 0"
| "strncmp (c1 # cs) (c2 # ct) (Suc n) =
     (if c1 \<noteq> c2 then Some (if c1 < c2 then - 1 else 1)
      else if c1 = 0 then Some 0
      else strncmp cs ct n)"
| "strncmp _ _ (Suc n) = None"

text \<open>
  \<open>memcmp\<close> of the kernel's \<open>lib/string.c\<close>: the difference of the first two bytes that
  differ, zero when the \<open>n\<close> bytes agree.
\<close>

fun memcmp :: "bytes \<Rightarrow> bytes \<Rightarrow> nat \<Rightarrow> int option" where
  "memcmp cs ct 0 = Some 0"
| "memcmp (c1 # cs) (c2 # ct) (Suc n) =
     (if c1 \<noteq> c2 then Some (uint c1 - uint c2) else memcmp cs ct n)"
| "memcmp _ _ (Suc n) = None"

section \<open>Constants\<close>

text \<open>
  Modelled from the spec: the headers (\<open>glob.h\<close>, \<open>export.h\<close>, \<open>ntlmssp.h\<close>) are not part of
  the sources at hand. The sizes are those of the key-size table of the specification
  (NT hash 16, NTLMv2 hash 16, NTLMv1 response 24, session key 16 + 24, server challenge 8,
  HMAC-SHA256 output 32, SHA-512 output 64); the errno values are those of Linux.
\<close>

definition CIFS_AUTH_RESP_SIZE :: nat where "CIFS_AUTH_RESP_SIZE = 24"
definition CIFS_ENCPWD_SIZE :: nat where "CIFS_ENCPWD_SIZE = 16"
definition CIFS_NTHASH_SIZE :: nat where "CIFS_NTHASH_SIZE = 16"
definition CIFS_CRYPTO_KEY_SIZE :: nat where "CIFS_CRYPTO_KEY_SIZE = 8"
definition CIFS_HMAC_MD5_HASH_SIZE :: nat where "CIFS_HMAC_MD5_HASH_SIZE = 16"
definition CIFS_SMB1_SESSKEY_SIZE :: nat where "CIFS_SMB1_SESSKEY_SIZE = 16"
definition SMB2_NTLMV2_SESSKEY_SIZE :: nat where "SMB2_NTLMV2_SESSKEY_SIZE = 16"
definition SMB2_HMACSHA256_SIZE :: nat where "SMB2_HMACSHA256_SIZE = 32"
definition SMB311_PROT_ID :: nat where "SMB311_PROT_ID = 0x0311"
definition SMB2_PREAUTH_INTEGRITY_SHA512 :: int where "SMB2_PREAUTH_INTEGRITY_SHA512 = 1"
definition EINVAL :: int where "EINVAL = 22"
definition ENOMEM :: int where "ENOMEM = 12"

section \<open>The environment: primitives that \<open>auth.c\<close> calls and does not define\<close>

datatype alg = HMAC_MD5 | HMAC_SHA256 | CMAC_AES | SHA512

text \<open>
  The kernel's hash interface, the DES and MD4 helpers, the Unicode helpers, the allocator
  and the global \<open>netbios_name\<close> are parameters of the model. A return code is \<open>0\<close> for
  success. A digest is a word of its fixed size.
\<close>

record prims =
  crypto_alloc_shash :: "alg \<Rightarrow> int"
  kmalloc_sdesc :: "alg \<Rightarrow> bool"
  setkey_rc :: "alg \<Rightarrow> bytes \<Rightarrow> int"
  init_rc :: "alg \<Rightarrow> int"
  update_rc :: "alg \<Rightarrow> bytes \<Rightarrow> int"
  final_rc :: "alg \<Rightarrow> bytes \<Rightarrow> bytes \<Rightarrow> int"
  hmac_md5 :: "bytes \<Rightarrow> bytes \<Rightarrow> 128 word"
  hmac_sha256 :: "bytes \<Rightarrow> bytes \<Rightarrow> 256 word"
  cmac_aes :: "bytes \<Rightarrow> bytes \<Rightarrow> 128 word"
  sha512 :: "bytes \<Rightarrow> 512 word"
  smb_mdfour :: "bytes \<Rightarrow> 128 word"
  E_P24 :: "bytes \<Rightarrow> bytes \<Rightarrow> int \<times> 192 word"
  kzalloc_ok :: "nat \<Rightarrow> bool"
  smb_strtoUTF16 :: "bytes \<Rightarrow> u16 list"
  UniToupper :: "u16 \<Rightarrow> u16"
  smb_strndup_from_utf16 :: "bytes \<Rightarrow> nat \<Rightarrow> bytes option"
  netbios_name :: bytes

fun digestsize :: "alg \<Rightarrow> nat" where
  "digestsize HMAC_MD5 = 16"
| "digestsize HMAC_SHA256 = 32"
| "digestsize CMAC_AES = 16"
| "digestsize SHA512 = 64"

fun shash_digest :: "prims \<Rightarrow> alg \<Rightarrow> bytes \<Rightarrow> bytes \<Rightarrow> bytes" where
  "shash_digest P HMAC_MD5 key data = digest_bytes 16 (hmac_md5 P key data)"
| "shash_digest P HMAC_SHA256 key data = digest_bytes 32 (hmac_sha256 P key data)"
| "shash_digest P CMAC_AES key data = digest_bytes 16 (cmac_aes P key data)"
| "shash_digest P SHA512 key data = digest_bytes 64 (sha512 P data)"

text \<open>
  Modelled from the spec: \<open>UniStrupr\<close> is an inline helper of a header that is not part of
  the sources at hand; it upper-cases a wide string in place, unit by unit, up to its
  terminating NUL.
\<close>

definition UniStrupr :: "prims \<Rightarrow> u16 list \<Rightarrow> u16 list" where
  "UniStrupr P us =
     map (UniToupper P) (takeWhile (\<lambda>c. c \<noteq> 0) us) @ dropWhile (\<lambda>c. c \<noteq> 0) us"

definition UNICODE_LEN :: "nat \<Rightarrow> nat" where
  "UNICODE_LEN n = 2 * n"

section \<open>Data model\<close>

text \<open>
  One hash context per algorithm: the transform (\<open>struct crypto_shash\<close>, which holds the
  key) and its descriptor (\<open>struct sdesc\<close>, which holds the data fed so far). The two
  pointers of the C code are both \<open>NULL\<close> or both set whenever an allocation function has
  returned, so one optional context stands for the pair.
\<close>

record shash =
  tfm_key :: bytes
  desc_data :: bytes

record tcp_server_info =
  secmech :: "alg \<Rightarrow> shash option"
  dialect :: nat
  Preauth_HashValue :: bytes

text \<open>\<open>usr_name\<close> is the field \<open>name\<close> of the user.\<close>

record cifssrv_usr =
  usr_name :: bytes
  passkey :: bytes

record ntlmssp_auth =
  client_flags :: u32
  cryptkey :: bytes

text \<open>
  The session refers to its connection through a pointer; the model keeps the connection
  inside the session. \<open>sess_Preauth_HashValue\<close> is the session's own \<open>Preauth_HashValue\<close>.
\<close>

record cifssrv_sess =
  server :: tcp_server_info
  usr :: cifssrv_usr
  ntlmssp :: ntlmssp_auth
  sess_key :: bytes
  sequence_number :: u32
  sess_Preauth_HashValue :: bytes

section \<open>The hash interface\<close>

text \<open>
  \<open>setkey\<close> stores the key, \<open>init\<close> empties the descriptor, \<open>update\<close> appends \<open>len\<close> bytes,
  \<open>final\<close> writes the digest of what was fed. A step that reports an error leaves the
  context, and for \<open>final\<close> the output buffer, as it was.
\<close>

definition crypto_shash_setkey ::
  "prims \<Rightarrow> alg \<Rightarrow> bytes \<Rightarrow> nat \<Rightarrow> tcp_server_info \<Rightarrow> (int \<times> tcp_server_info) option" where
  "crypto_shash_setkey P a key keylen srv = do {
     c \<leftarrow> secmech srv a;
     k \<leftarrow> peek key 0 keylen;
     let rc = setkey_rc P a k;
     Some (rc, if rc \<noteq> 0 then srv
               else srv\<lparr>secmech := (secmech srv)(a \<mapsto> c\<lparr>tfm_key := k\<rparr>)\<rparr>)
   }"

definition crypto_shash_init ::
  "prims \<Rightarrow> alg \<Rightarrow> tcp_server_info \<Rightarrow> (int \<times> tcp_server_info) option" where
  "crypto_shash_init P a srv = do {
     c \<leftarrow> secmech srv a;
     let rc = init_rc P a;
     Some (rc, if rc \<noteq> 0 then srv
               else srv\<lparr>secmech := (secmech srv)(a \<mapsto> c\<lparr>desc_data := []\<rparr>)\<rparr>)
   }"

definition crypto_shash_update ::
  "prims \<Rightarrow> alg \<Rightarrow> bytes \<Rightarrow> nat \<Rightarrow> tcp_server_info \<Rightarrow> (int \<times> tcp_server_info) option" where
  "crypto_shash_update P a data len srv = do {
     c \<leftarrow> secmech srv a;
     d \<leftarrow> peek data 0 len;
     let rc = update_rc P a d;
     Some (rc, if rc \<noteq> 0 then srv
               else srv\<lparr>secmech := (secmech srv)(a \<mapsto> c\<lparr>desc_data := desc_data c @ d\<rparr>)\<rparr>)
   }"

definition crypto_shash_final ::
  "prims \<Rightarrow> alg \<Rightarrow> bytes \<Rightarrow> tcp_server_info \<Rightarrow> (int \<times> bytes) option" where
  "crypto_shash_final P a out srv = do {
     c \<leftarrow> secmech srv a;
     let rc = final_rc P a (tfm_key c) (desc_data c);
     if rc \<noteq> 0 then Some (rc, out)
     else do {
       out' \<leftarrow> poke out 0 (shash_digest P a (tfm_key c) (desc_data c));
       Some (rc, out')
     }
   }"

text \<open>A call on \<open>sess->server\<close>.\<close>

definition on_server ::
  "(tcp_server_info \<Rightarrow> (int \<times> tcp_server_info) option) \<Rightarrow> cifssrv_sess \<Rightarrow>
     (int \<times> cifssrv_sess) option" where
  "on_server f sess = do {
     (rc, srv) \<leftarrow> f (server sess);
     Some (rc, sess\<lparr>server := srv\<rparr>)
   }"

text \<open>
  The allocation functions differ in name and algorithm only: \<open>crypto_hmacmd5_alloc\<close>,
  \<open>crypto_hmacsha256_alloc\<close>, \<open>crypto_cmac_alloc\<close>, \<open>crypto_sha512_alloc\<close>.
\<close>

definition crypto_alloc :: "prims \<Rightarrow> alg \<Rightarrow> tcp_server_info \<Rightarrow> int \<times> tcp_server_info" where
  "crypto_alloc P a srv =
     (if secmech srv a \<noteq> None then (0, srv)
      else if crypto_alloc_shash P a \<noteq> 0 then (crypto_alloc_shash P a, srv)
      else if \<not> kmalloc_sdesc P a then (- ENOMEM, srv)
      else (0, srv\<lparr>secmech := (secmech srv)(a \<mapsto> \<lparr>tfm_key = [], desc_data = []\<rparr>)\<rparr>))"

definition crypto_hmacmd5_alloc :: "prims \<Rightarrow> tcp_server_info \<Rightarrow> (int \<times> tcp_server_info) option" where
  "crypto_hmacmd5_alloc P srv = Some (crypto_alloc P HMAC_MD5 srv)"

definition crypto_hmacsha256_alloc :: "prims \<Rightarrow> tcp_server_info \<Rightarrow> (int \<times> tcp_server_info) option" where
  "crypto_hmacsha256_alloc P srv = Some (crypto_alloc P HMAC_SHA256 srv)"

definition crypto_cmac_alloc :: "prims \<Rightarrow> tcp_server_info \<Rightarrow> (int \<times> tcp_server_info) option" where
  "crypto_cmac_alloc P srv = Some (crypto_alloc P CMAC_AES srv)"

definition crypto_sha512_alloc :: "prims \<Rightarrow> tcp_server_info \<Rightarrow> (int \<times> tcp_server_info) option" where
  "crypto_sha512_alloc P srv = Some (crypto_alloc P SHA512 srv)"

section \<open>Credential verification\<close>

definition compute_sess_key ::
  "prims \<Rightarrow> cifssrv_sess \<Rightarrow> bytes \<Rightarrow> bytes \<Rightarrow> (int \<times> cifssrv_sess) option" where
  "compute_sess_key P sess hash hmac = do {
     (rc, sess) \<leftarrow> on_server (crypto_hmacmd5_alloc P) sess;
     if rc \<noteq> 0 then Some (rc, sess) else do {
     (rc, sess) \<leftarrow> on_server (crypto_shash_setkey P HMAC_MD5 hash CIFS_HMAC_MD5_HASH_SIZE) sess;
     if rc \<noteq> 0 then Some (rc, sess) else do {
     (rc, sess) \<leftarrow> on_server (crypto_shash_init P HMAC_MD5) sess;
     if rc \<noteq> 0 then Some (rc, sess) else do {
     (rc, sess) \<leftarrow> on_server (crypto_shash_update P HMAC_MD5 hmac SMB2_NTLMV2_SESSKEY_SIZE) sess;
     if rc \<noteq> 0 then Some (rc, sess) else do {
     (rc, key) \<leftarrow> crypto_shash_final P HMAC_MD5 (sess_key sess) (server sess);
     Some (rc, sess\<lparr>sess_key := key\<rparr>)
   }}}}}"

text \<open>
  \<open>dname\<close> is \<open>None\<close> for a \<open>NULL\<close> pointer. The two conversion buffers come zeroed from
  \<open>kzalloc\<close>, \<open>2 + UNICODE_LEN(len)\<close> bytes each; \<open>smb_strtoUTF16\<close> writes its units and a
  terminating NUL unit there and returns the number of units; \<open>UniStrupr\<close> then works on
  the buffer in place.
\<close>

definition calc_ntlmv2_hash ::
  "prims \<Rightarrow> cifssrv_sess \<Rightarrow> bytes \<Rightarrow> bytes option \<Rightarrow> (int \<times> cifssrv_sess \<times> bytes) option" where
  "calc_ntlmv2_hash P sess ntlmv2_hash dname =
     (if secmech (server sess) HMAC_MD5 = None then Some (- 1, sess, ntlmv2_hash) else do {
     (ret, sess) \<leftarrow> on_server
        (crypto_shash_setkey P HMAC_MD5 (passkey (usr sess)) CIFS_ENCPWD_SIZE) sess;
     if ret \<noteq> 0 then Some (ret, sess, ntlmv2_hash) else do {
     (ret, sess) \<leftarrow> on_server (crypto_shash_init P HMAC_MD5) sess;
     if ret \<noteq> 0 then Some (ret, sess, ntlmv2_hash) else do {
     let len = length (usr_name (usr sess));
     if \<not> kzalloc_ok P (2 + UNICODE_LEN len) then Some (- ENOMEM, sess, ntlmv2_hash) else do {
     uniname \<leftarrow>
       (if len \<noteq> 0
        then poke (replicate (2 + UNICODE_LEN len) 0) 0
               (le16s (UniStrupr P (smb_strtoUTF16 P (usr_name (usr sess)) @ [0])))
        else Some (replicate (2 + UNICODE_LEN len) 0));
     let len = (if len \<noteq> 0 then length (smb_strtoUTF16 P (usr_name (usr sess))) else len);
     (ret, sess) \<leftarrow> on_server
        (crypto_shash_update P HMAC_MD5 uniname (UNICODE_LEN len)) sess;
     if ret \<noteq> 0 then Some (ret, sess, ntlmv2_hash) else do {
     dn \<leftarrow> dname;
     let len = length dn;
     if \<not> kzalloc_ok P (2 + UNICODE_LEN len) then Some (- ENOMEM, sess, ntlmv2_hash) else do {
     domain \<leftarrow> poke (replicate (2 + UNICODE_LEN len) 0) 0
                 (le16s (smb_strtoUTF16 P dn @ [0]));
     let len = length (smb_strtoUTF16 P dn);
     (ret, sess) \<leftarrow> on_server
        (crypto_shash_update P HMAC_MD5 domain (UNICODE_LEN len)) sess;
     if ret \<noteq> 0 then Some (ret, sess, ntlmv2_hash) else do {
     (ret, ntlmv2_hash) \<leftarrow> crypto_shash_final P HMAC_MD5 ntlmv2_hash (server sess);
     Some (ret, sess, ntlmv2_hash)
   }}}}}}})"

text \<open>
  \<open>pw_buf\<close> points into the received message. \<open>p21\<close> is the NT hash followed by five zero
  bytes; \<open>key\<close> is the 24-byte response that \<open>E_P24\<close> computes.
\<close>

definition process_ntlm ::
  "prims \<Rightarrow> cifssrv_sess \<Rightarrow> bytes \<Rightarrow> (int \<times> cifssrv_sess) option" where
  "process_ntlm P sess pw_buf = do {
     p16 \<leftarrow> peek (passkey (usr sess)) 0 CIFS_NTHASH_SIZE;
     let p21 = p16 @ replicate (21 - CIFS_NTHASH_SIZE) 0;
     c8 \<leftarrow> peek (cryptkey (ntlmssp sess)) 0 CIFS_CRYPTO_KEY_SIZE;
     let (rc, k) = E_P24 P p21 c8;
     let key = digest_bytes CIFS_AUTH_RESP_SIZE k;
     if rc \<noteq> 0 then Some (rc, sess) else do {
     pk \<leftarrow> peek (passkey (usr sess)) 0 CIFS_SMB1_SESSKEY_SIZE;
     sk \<leftarrow> poke (sess_key sess) 0 (digest_bytes 16 (smb_mdfour P pk));
     sk \<leftarrow> poke sk CIFS_SMB1_SESSKEY_SIZE key;
     let sess = sess\<lparr>sess_key := sk, sequence_number := 1\<rparr>;
     c \<leftarrow> strncmp pw_buf key CIFS_AUTH_RESP_SIZE;
     Some (if c \<noteq> 0 then - EINVAL else rc, sess)
   }}"

text \<open>
  \<open>ntlmv2\<close> points into the received message, at a \<open>struct ntlmv2_resp\<close>: the 16 bytes of
  \<open>ntlmv2_hash\<close>, then the blob from \<open>blob_signature\<close> on. Both branches of the comparison
  of \<open>domain_name\<close> with the global \<open>netbios_name\<close> pass the string that \<open>domain_name\<close> points
  to. \<open>kzalloc\<close> takes a \<open>size_t\<close>: a negative \<open>len\<close> is a size no allocator grants, and
  a negative \<open>blen\<close> is a \<open>memcpy\<close> beyond every buffer.
\<close>

definition process_ntlmv2 ::
  "prims \<Rightarrow> cifssrv_sess \<Rightarrow> bytes \<Rightarrow> int \<Rightarrow> bytes option \<Rightarrow> (int \<times> cifssrv_sess) option" where
  "process_ntlmv2 P sess ntlmv2 blen domain_name = do {
     (rc, sess) \<leftarrow> on_server (crypto_hmacmd5_alloc P) sess;
     if rc \<noteq> 0 then Some (rc, sess) else do {
     (rc, sess, ntlmv2_hash) \<leftarrow>
        calc_ntlmv2_hash P sess (replicate CIFS_ENCPWD_SIZE 0) domain_name;
     if rc \<noteq> 0 then Some (rc, sess) else do {
     (rc, sess) \<leftarrow> on_server
        (crypto_shash_setkey P HMAC_MD5 ntlmv2_hash CIFS_HMAC_MD5_HASH_SIZE) sess;
     if rc \<noteq> 0 then Some (rc, sess) else do {
     (rc, sess) \<leftarrow> on_server (crypto_shash_init P HMAC_MD5) sess;
     if rc \<noteq> 0 then Some (rc, sess) else do {
     let len = int CIFS_CRYPTO_KEY_SIZE + blen;
     if len < 0 \<or> \<not> kzalloc_ok P (nat len) then Some (- ENOMEM, sess) else do {
     ck \<leftarrow> peek (cryptkey (ntlmssp sess)) 0 CIFS_CRYPTO_KEY_SIZE;
     construct \<leftarrow> poke (replicate (nat len) 0) 0 ck;
     blob \<leftarrow> (if blen < 0 then None else peek ntlmv2 CIFS_ENCPWD_SIZE (nat blen));
     construct \<leftarrow> poke construct CIFS_CRYPTO_KEY_SIZE blob;
     (rc, sess) \<leftarrow> on_server (crypto_shash_update P HMAC_MD5 construct (nat len)) sess;
     if rc \<noteq> 0 then Some (rc, sess) else do {
     (rc, ntlmv2_rsp) \<leftarrow>
        crypto_shash_final P HMAC_MD5 (replicate CIFS_HMAC_MD5_HASH_SIZE 0) (server sess);
     if rc \<noteq> 0 then Some (rc, sess) else do {
     (rc, sess) \<leftarrow> compute_sess_key P sess ntlmv2_hash ntlmv2_rsp;
     if rc \<noteq> 0 then Some (rc, sess) else do {
     rc \<leftarrow> memcmp ntlmv2 ntlmv2_rsp CIFS_HMAC_MD5_HASH_SIZE;
     Some (rc, sess)
   }}}}}}}}}"

section \<open>The NTLMSSP messages\<close>

text \<open>
  Modelled from the spec: the message structures are declared in \<open>ntlmssp.h\<close>, which is not
  part of the sources at hand. They are the packed wire records of the specification: an
  8-byte signature, a 4-byte message type, and security buffers
  \<open>{Length: u16, MaximumLength: u16, BufferOffset: u32}\<close>. The code reads the fields as the
  CPU has them; the model reads them little-endian, as the wire does.
  \<^item> Negotiate (32 bytes): Signature 0, MessageType 8, NegotiateFlags 12, DomainName 16,
    WorkstationName 24.
  \<^item> Authenticate (64 bytes): Signature 0, MessageType 8, LmChallengeResponse 12,
    NtChallengeResponse 20, DomainName 28, UserName 36, WorkstationName 44, SessionKey 52,
    NegotiateFlags 60.
  \<^item> Challenge (48 bytes): Signature 0, MessageType 8, TargetName 12, NegotiateFlags 20,
    Challenge 24, Reserved 32, TargetInfoArray 40.
\<close>

definition NTLMSSP_SIGNATURE :: bytes where
  "NTLMSSP_SIGNATURE = cstr ''NTLMSSP''"

definition sizeof_NEGOTIATE_MESSAGE :: nat where "sizeof_NEGOTIATE_MESSAGE = 32"
definition sizeof_AUTHENTICATE_MESSAGE :: nat where "sizeof_AUTHENTICATE_MESSAGE = 64"
definition sizeof_CHALLENGE_MESSAGE :: nat where "sizeof_CHALLENGE_MESSAGE = 48"

record SECURITY_BUFFER =
  Length :: u16
  MaximumLength :: u16
  BufferOffset :: u32

definition get_le16 :: "bytes \<Rightarrow> nat \<Rightarrow> u16 option" where
  "get_le16 m off = map_option (\<lambda>bs. of_nat (le_nat bs)) (peek m off 2)"

definition get_le32 :: "bytes \<Rightarrow> nat \<Rightarrow> u32 option" where
  "get_le32 m off = map_option (\<lambda>bs. of_nat (le_nat bs)) (peek m off 4)"

definition get_secbuf :: "bytes \<Rightarrow> nat \<Rightarrow> SECURITY_BUFFER option" where
  "get_secbuf m off = do {
     l \<leftarrow> get_le16 m off;
     ml \<leftarrow> get_le16 m (off + 2);
     bo \<leftarrow> get_le32 m (off + 4);
     Some \<lparr>Length = l, MaximumLength = ml, BufferOffset = bo\<rparr>
   }"

definition auth_NtChallengeResponse :: "bytes \<Rightarrow> SECURITY_BUFFER option" where
  "auth_NtChallengeResponse authblob = get_secbuf authblob 20"

definition auth_DomainName :: "bytes \<Rightarrow> SECURITY_BUFFER option" where
  "auth_DomainName authblob = get_secbuf authblob 28"

definition neg_NegotiateFlags :: "bytes \<Rightarrow> u32 option" where
  "neg_NegotiateFlags negblob = get_le32 negblob 12"

text \<open>
  \<open>blob_len\<close> is the length of the received message \<open>authblob\<close>. The pointer sums
  \<open>(char *)authblob + BufferOffset\<close> are formed without a check.
\<close>

definition decode_ntlmssp_authenticate_blob ::
  "prims \<Rightarrow> bytes \<Rightarrow> cifssrv_sess \<Rightarrow> (int \<times> cifssrv_sess) option" where
  "decode_ntlmssp_authenticate_blob P authblob sess =
     (let blob_len = length authblob in
      if blob_len < sizeof_AUTHENTICATE_MESSAGE then Some (- EINVAL, sess) else do {
      c \<leftarrow> memcmp authblob NTLMSSP_SIGNATURE 8;
      if c \<noteq> 0 then Some (- EINVAL, sess) else do {
      nt \<leftarrow> auth_NtChallengeResponse authblob;
      if unat (Length nt) = CIFS_AUTH_RESP_SIZE
      then process_ntlm P sess (drop (unat (BufferOffset nt)) authblob)
      else do {
      dn \<leftarrow> auth_DomainName authblob;
      let domain_name = smb_strndup_from_utf16 P
            (drop (unat (BufferOffset dn)) authblob) (unat (Length dn));
      process_ntlmv2 P sess (drop (unat (BufferOffset nt)) authblob)
        (int (unat (Length nt)) - int CIFS_ENCPWD_SIZE) domain_name
    }}})"

definition decode_ntlmssp_negotiate_blob ::
  "bytes \<Rightarrow> cifssrv_sess \<Rightarrow> (int \<times> cifssrv_sess) option" where
  "decode_ntlmssp_negotiate_blob negblob sess =
     (let blob_len = length negblob in
      if blob_len < sizeof_NEGOTIATE_MESSAGE then Some (- EINVAL, sess) else do {
      c \<leftarrow> memcmp negblob NTLMSSP_SIGNATURE 8;
      if c \<noteq> 0 then Some (- EINVAL, sess) else do {
      flags \<leftarrow> neg_NegotiateFlags negblob;
      Some (0, sess\<lparr>ntlmssp := (ntlmssp sess)\<lparr>client_flags := flags\<rparr>\<rparr>)
    }})"

section \<open>The challenge message\<close>

text \<open>
  Modelled from the spec: the flag values, the message type and the attribute types are
  declared in \<open>ntlmssp.h\<close>, which is not part of the sources at hand; the attribute types
  run from NetBIOS computer name (1) over NetBIOS domain name and DNS computer name to DNS
  domain name (4), and 0 ends the list.
\<close>

definition NTLMSSP_NEGOTIATE_UNICODE :: u32 where "NTLMSSP_NEGOTIATE_UNICODE = 0x01"
definition NTLMSSP_REQUEST_TARGET :: u32 where "NTLMSSP_REQUEST_TARGET = 0x04"
definition NTLMSSP_NEGOTIATE_NTLM :: u32 where "NTLMSSP_NEGOTIATE_NTLM = 0x0200"
definition NTLMSSP_TARGET_TYPE_SERVER :: u32 where "NTLMSSP_TARGET_TYPE_SERVER = 0x20000"
definition NTLMSSP_NEGOTIATE_TARGET_INFO :: u32 where "NTLMSSP_NEGOTIATE_TARGET_INFO = 0x800000"
definition NTLMSSP_NEGOTIATE_VERSION :: u32 where "NTLMSSP_NEGOTIATE_VERSION = 0x2000000"
definition NTLMSSP_NEGOTIATE_128 :: u32 where "NTLMSSP_NEGOTIATE_128 = 0x20000000"
definition NTLMSSP_NEGOTIATE_56 :: u32 where "NTLMSSP_NEGOTIATE_56 = 0x80000000"
definition NtLmChallenge :: u32 where "NtLmChallenge = 2"
definition NTLMSSP_AV_NB_COMPUTER_NAME :: nat where "NTLMSSP_AV_NB_COMPUTER_NAME = 1"
definition NTLMSSP_AV_DNS_DOMAIN_NAME :: nat where "NTLMSSP_AV_DNS_DOMAIN_NAME = 4"

text \<open>
  The fixed part of the message is a record; \<open>tail\<close> is the memory that follows it in the
  response buffer, so that the byte at \<open>(__u8 *)chgblob + off\<close> is the byte
  \<open>off - sizeof(CHALLENGE_MESSAGE)\<close> of \<open>tail\<close>.
\<close>

record CHALLENGE_MESSAGE =
  Signature :: bytes
  MessageType :: u32
  TargetName :: SECURITY_BUFFER
  NegotiateFlags :: u32
  Challenge :: bytes
  Reserved :: bytes
  TargetInfoArray :: SECURITY_BUFFER

text \<open>
  The loop over the attribute types. A \<open>TargetInfo\<close> is \<open>{Type: u16, Length: u16, Content}\<close>;
  \<open>tinfo\<close> is the offset in \<open>tail\<close> of the attribute to write, \<open>tlen\<close> the running
  \<open>TargetInfoArray.Length\<close>.
\<close>

function tinfo_loop ::
  "bytes \<Rightarrow> nat \<Rightarrow> nat \<Rightarrow> bytes \<Rightarrow> nat \<Rightarrow> u16 \<Rightarrow> (bytes \<times> nat \<times> u16) option" where
  "tinfo_loop name len type tail tinfo tlen =
     (if type \<le> NTLMSSP_AV_DNS_DOMAIN_NAME then
        (case poke tail tinfo (le16 (of_nat type)) of None \<Rightarrow> None | Some tail1 \<Rightarrow>
        (case poke tail1 (tinfo + 2) (le16 (of_nat len)) of None \<Rightarrow> None | Some tail2 \<Rightarrow>
        (case peek name 0 len of None \<Rightarrow> None | Some content \<Rightarrow>
        (case poke tail2 (tinfo + 4) content of None \<Rightarrow> None | Some tail3 \<Rightarrow>
           tinfo_loop name len (type + 1) tail3 (tinfo + 4 + len) (tlen + of_nat (4 + len))))))
      else Some (tail, tinfo, tlen))"
  by pat_completeness auto
termination
  by (relation "measure (\<lambda>(name, len, type, tail, tinfo, tlen). 5 - type)")
     (auto simp: NTLMSSP_AV_DNS_DOMAIN_NAME_def)

text \<open>
  \<open>rnd\<close> is what \<open>get_random_bytes\<close> delivers. \<open>name\<close> is the local array of 8 units.
  \<open>blob_len\<close> is an \<open>unsigned int\<close> that starts from a 16-bit value.
\<close>

definition build_ntlmssp_challenge_blob ::
  "prims \<Rightarrow> 64 word \<Rightarrow> CHALLENGE_MESSAGE \<Rightarrow> bytes \<Rightarrow> cifssrv_sess \<Rightarrow>
     (nat \<times> CHALLENGE_MESSAGE \<times> bytes \<times> cifssrv_sess) option" where
  "build_ntlmssp_challenge_blob P rnd chgblob tail sess = do {
     let chgblob = chgblob\<lparr>Signature := NTLMSSP_SIGNATURE, MessageType := NtLmChallenge\<rparr>;
     let flags = NTLMSSP_NEGOTIATE_UNICODE OR NTLMSSP_NEGOTIATE_NTLM OR
                 NTLMSSP_TARGET_TYPE_SERVER OR NTLMSSP_NEGOTIATE_TARGET_INFO OR
                 NTLMSSP_NEGOTIATE_128 OR NTLMSSP_NEGOTIATE_56 OR NTLMSSP_NEGOTIATE_VERSION;
     let flags = (if client_flags (ntlmssp sess) AND NTLMSSP_REQUEST_TARGET \<noteq> 0
                  then flags OR NTLMSSP_REQUEST_TARGET else flags);
     let chgblob = chgblob\<lparr>NegotiateFlags := flags\<rparr>;
     name \<leftarrow> poke (replicate (2 * 8) 0) 0 (le16s (smb_strtoUTF16 P (netbios_name P) @ [0]));
     let len = length (smb_strtoUTF16 P (netbios_name P));
     let len = UNICODE_LEN len;
     let chgblob = chgblob\<lparr>TargetName :=
           \<lparr>Length = of_nat len, MaximumLength = of_nat len,
            BufferOffset = of_nat sizeof_CHALLENGE_MESSAGE\<rparr>\<rparr>;
     ck \<leftarrow> poke (cryptkey (ntlmssp sess)) 0 (digest_bytes 8 rnd);
     let sess = sess\<lparr>ntlmssp := (ntlmssp sess)\<lparr>cryptkey := ck\<rparr>\<rparr>;
     ch \<leftarrow> peek (cryptkey (ntlmssp sess)) 0 CIFS_CRYPTO_KEY_SIZE;
     let chgblob = chgblob\<lparr>Challenge := ch\<rparr>;
     let chgblob = chgblob\<lparr>TargetInfoArray := (TargetInfoArray chgblob)
           \<lparr>BufferOffset := BufferOffset (TargetName chgblob) + of_nat len\<rparr>\<rparr>;
     let target_name = unat (BufferOffset (TargetName chgblob)) - sizeof_CHALLENGE_MESSAGE;
     nm \<leftarrow> peek name 0 len;
     tail \<leftarrow> poke tail target_name nm;
     let blob_len = (sizeof_CHALLENGE_MESSAGE + len) mod 2 ^ 16;
     let tinfo = target_name + len;
     (tail, tinfo, tlen) \<leftarrow> tinfo_loop name len NTLMSSP_AV_NB_COMPUTER_NAME tail tinfo 0;
     tail \<leftarrow> poke tail tinfo (le16 0 @ le16 0);
     let tlen = tlen + 4;
     let chgblob = chgblob\<lparr>TargetInfoArray := (TargetInfoArray chgblob)
           \<lparr>Length := tlen, MaximumLength := tlen\<rparr>\<rparr>;
     let blob_len = (blob_len + unat (Length (TargetInfoArray chgblob))) mod 2 ^ 32;
     Some (blob_len, chgblob, tail, sess)
   }"

section \<open>Key derivation and the preauthentication hash\<close>

text \<open>\<open>key\<close> is the caller's buffer, \<open>prfhash\<close> the local one of 32 bytes.\<close>

definition compute_smb3xsigningkey ::
  "prims \<Rightarrow> cifssrv_sess \<Rightarrow> bytes \<Rightarrow> nat \<Rightarrow> (int \<times> cifssrv_sess \<times> bytes) option" where
  "compute_smb3xsigningkey P sess key key_size = do {
     let zero = [0];
     let i = [0, 0, 0, 1];
     let L = [0, 0, 0, 128];
     prfhash \<leftarrow> memset0 (replicate SMB2_HMACSHA256_SIZE 0) SMB2_HMACSHA256_SIZE;
     key \<leftarrow> memset0 key key_size;
     (rc, sess) \<leftarrow> on_server (crypto_hmacsha256_alloc P) sess;
     if rc \<noteq> 0 then Some (rc, sess, key) else do {
     (rc, sess) \<leftarrow> on_server (crypto_cmac_alloc P) sess;
     if rc \<noteq> 0 then Some (rc, sess, key) else do {
     (rc, sess) \<leftarrow> on_server
        (crypto_shash_setkey P HMAC_SHA256 (sess_key sess) SMB2_NTLMV2_SESSKEY_SIZE) sess;
     if rc \<noteq> 0 then Some (rc, sess, key) else do {
     (rc, sess) \<leftarrow> on_server (crypto_shash_init P HMAC_SHA256) sess;
     if rc \<noteq> 0 then Some (rc, sess, key) else do {
     (rc, sess) \<leftarrow> on_server (crypto_shash_update P HMAC_SHA256 i 4) sess;
     if rc \<noteq> 0 then Some (rc, sess, key) else do {
     (rc, sess) \<leftarrow>
       (if dialect (server sess) = SMB311_PROT_ID
        then on_server (crypto_shash_update P HMAC_SHA256 (cstr ''SMBSigningKey'') 14) sess
        else on_server (crypto_shash_update P HMAC_SHA256 (cstr ''SMB2AESCMAC'') 12) sess);
     if rc \<noteq> 0 then Some (rc, sess, key) else do {
     (rc, sess) \<leftarrow> on_server (crypto_shash_update P HMAC_SHA256 zero 1) sess;
     if rc \<noteq> 0 then Some (rc, sess, key) else do {
     (rc, sess) \<leftarrow>
       (if dialect (server sess) = SMB311_PROT_ID
        then on_server
               (crypto_shash_update P HMAC_SHA256 (sess_Preauth_HashValue sess) 64) sess
        else on_server (crypto_shash_update P HMAC_SHA256 (cstr ''SmbSign'') 8) sess);
     if rc \<noteq> 0 then Some (rc, sess, key) else do {
     (rc, sess) \<leftarrow> on_server (crypto_shash_update P HMAC_SHA256 L 4) sess;
     if rc \<noteq> 0 then Some (rc, sess, key) else do {
     (rc, prfhash) \<leftarrow> crypto_shash_final P HMAC_SHA256 prfhash (server sess);
     if rc \<noteq> 0 then Some (rc, sess, key) else do {
     h \<leftarrow> peek prfhash 0 key_size;
     key \<leftarrow> poke key 0 h;
     Some (rc, sess, key)
   }}}}}}}}}}}"

text \<open>
  Modelled from the spec: \<open>struct smb2_hdr\<close> is declared in a header that is not part of the
  sources at hand; its first field is the 4-byte length in network byte order, and the
  protocol identifier follows it. \<open>srv\<close> is the parameter \<open>server\<close>.
\<close>

definition calc_preauth_integrity_hash ::
  "prims \<Rightarrow> tcp_server_info \<Rightarrow> int \<Rightarrow> bytes \<Rightarrow> bytes \<Rightarrow>
     (int \<times> tcp_server_info \<times> bytes) option" where
  "calc_preauth_integrity_hash P srv hash_id buf pi_hash = do {
     let rc = - 1;
     let all_bytes_msg = drop 4 buf;
     smb2_buf_length \<leftarrow> peek buf 0 4;
     let msg_size = be_nat smb2_buf_length;
     if hash_id = SMB2_PREAUTH_INTEGRITY_SHA512 then do {
       (rc, srv) \<leftarrow> crypto_sha512_alloc P srv;
       if rc \<noteq> 0 then Some (rc, srv, pi_hash) else do {
       (rc, srv) \<leftarrow> crypto_shash_init P SHA512 srv;
       if rc \<noteq> 0 then Some (rc, srv, pi_hash) else do {
       (rc, srv) \<leftarrow> crypto_shash_update P SHA512 (Preauth_HashValue srv) 64 srv;
       if rc \<noteq> 0 then Some (rc, srv, pi_hash) else do {
       (rc, srv) \<leftarrow> crypto_shash_update P SHA512 all_bytes_msg msg_size srv;
       if rc \<noteq> 0 then Some (rc, srv, pi_hash) else do {
       (rc, pi_hash) \<leftarrow> crypto_shash_final P SHA512 pi_hash srv;
       Some (rc, srv, pi_hash)
     }}}}}
     else Some (rc, srv, pi_hash)
   }"

section \<open>Vocabulary of the proofs\<close>

text \<open>
  \<open>only_ctx s s'\<close>: the session \<open>s'\<close> differs from \<open>s\<close> in the hash contexts of its connection
  at most. \<open>only_key s s'\<close>: it differs in the hash contexts and the session key at most.
  \<open>ctx_key\<close> and \<open>ctx_data\<close> read the key and the data fed so far of a context;
  \<open>hs s0 a k d s\<close> says that \<open>s\<close> is \<open>s0\<close> up to the contexts and that the context of \<open>a\<close>
  holds key \<open>k\<close> and data \<open>d\<close>. \<open>ntlmv2_hash_data\<close> is the data that \<open>calc_ntlmv2_hash\<close> feeds:
  the upper-cased UTF-16 account name (nothing for an empty name, where the code skips the
  conversion) and the UTF-16 target name. \<open>prims_ok P\<close>: in the environment \<open>P\<close> every
  allocation and every step of the hash interface succeeds.
\<close>

definition only_ctx :: "cifssrv_sess \<Rightarrow> cifssrv_sess \<Rightarrow> bool" where
  "only_ctx s s' \<longleftrightarrow>
     usr s' = usr s \<and> ntlmssp s' = ntlmssp s \<and> sess_key s' = sess_key s \<and>
     sequence_number s' = sequence_number s \<and>
     sess_Preauth_HashValue s' = sess_Preauth_HashValue s \<and>
     dialect (server s') = dialect (server s) \<and>
     Preauth_HashValue (server s') = Preauth_HashValue (server s)"

definition ctx_key :: "tcp_server_info \<Rightarrow> alg \<Rightarrow> bytes" where
  "ctx_key srv a = (case secmech srv a of Some c \<Rightarrow> tfm_key c | None \<Rightarrow> [])"

definition ctx_data :: "tcp_server_info \<Rightarrow> alg \<Rightarrow> bytes" where
  "ctx_data srv a = (case secmech srv a of Some c \<Rightarrow> desc_data c | None \<Rightarrow> [])"

definition hs :: "cifssrv_sess \<Rightarrow> alg \<Rightarrow> bytes \<Rightarrow> bytes \<Rightarrow> cifssrv_sess \<Rightarrow> bool" where
  "hs s0 a k d s \<longleftrightarrow> only_ctx s0 s \<and> ctx_key (server s) a = k \<and> ctx_data (server s) a = d"

definition only_key :: "cifssrv_sess \<Rightarrow> cifssrv_sess \<Rightarrow> bool" where
  "only_key s s' \<longleftrightarrow> only_ctx s (s'\<lparr>sess_key := sess_key s\<rparr>)"

definition ntlmv2_hash_data :: "prims \<Rightarrow> cifssrv_usr \<Rightarrow> bytes \<Rightarrow> bytes" where
  "ntlmv2_hash_data P u dn =
     (if usr_name u = [] then [] else le16s (UniStrupr P (smb_strtoUTF16 P (usr_name u)))) @
     le16s (smb_strtoUTF16 P dn)"

definition prims_ok :: "prims \<Rightarrow> bool" where
  "prims_ok P \<longleftrightarrow>
     (\<forall>a. crypto_alloc_shash P a = 0) \<and> (\<forall>a. kmalloc_sdesc P a) \<and>
     (\<forall>a k. setkey_rc P a k = 0) \<and> (\<forall>a. init_rc P a = 0) \<and>
     (\<forall>a d. update_rc P a d = 0) \<and> (\<forall>a k d. final_rc P a k d = 0) \<and>
     (\<forall>n. kzalloc_ok P n)"

section \<open>Concrete instances\<close>

text \<open>
  A small environment on which the functions can be run: every step of the hash interface
  succeeds, a keyed hash is the sum of the bytes of key and data, SHA-512 the sum of the
  bytes of the data, MD4 and DES read their input as a big-endian number, the conversion to
  UTF-16 widens each byte, and the server is called \<open>FSRV\<close>. \<open>failing_final\<close> is the same
  environment with a \<open>crypto_shash_final\<close> that reports \<open>-EINVAL\<close>. \<open>test_sess\<close> is a 3.1.1
  session of user \<open>alice\<close> with no hash context allocated; \<open>test_sess_md5\<close> has the HMAC-MD5
  context. \<open>test_authblob\<close> lays out an authenticate message whose NT-challenge-response
  buffer has the given length and offset; \<open>test_pdu\<close> is a PDU with a declared length of 6.
\<close>

definition test_prims :: prims where
  "test_prims = \<lparr>crypto_alloc_shash = (\<lambda>a. 0), kmalloc_sdesc = (\<lambda>a. True),
          setkey_rc = (\<lambda>a k. 0), init_rc = (\<lambda>a. 0), update_rc = (\<lambda>a d. 0),
          final_rc = (\<lambda>a k d. 0),
          hmac_md5 = (\<lambda>k d. of_nat (sum_list (map unat (k @ d)))),
          hmac_sha256 = (\<lambda>k d. of_nat (sum_list (map unat (k @ d)))),
          cmac_aes = (\<lambda>k d. of_nat (sum_list (map unat (k @ d)))),
          sha512 = (\<lambda>d. of_nat (sum_list (map unat d))),
          smb_mdfour = (\<lambda>d. of_nat (be_nat d)),
          E_P24 = (\<lambda>p c. (0, of_nat (be_nat c))),
          kzalloc_ok = (\<lambda>n. True),
          smb_strtoUTF16 = map ucast,
          UniToupper = (\<lambda>c. if 97 \<le> c \<and> c \<le> 122 then c - 32 else c),
          smb_strndup_from_utf16 = (\<lambda>src n. Some (map (\<lambda>i. src ! (2 * i)) [0..<n div 2])),
          netbios_name = ascii ''FSRV''\<rparr>"

definition failing_final :: prims where
  "failing_final = test_prims\<lparr>final_rc := (\<lambda>a k d. - EINVAL)\<rparr>"

definition test_sess :: cifssrv_sess where
  "test_sess =
     \<lparr>server = \<lparr>secmech = (\<lambda>a. None), dialect = SMB311_PROT_ID,
                Preauth_HashValue = replicate 64 0\<rparr>,
      usr = \<lparr>usr_name = ascii ''alice'', passkey = replicate 16 1\<rparr>,
      ntlmssp = \<lparr>client_flags = 0, cryptkey = [1, 2, 3, 4, 5, 6, 7, 8]\<rparr>,
      sess_key = replicate 40 0,
      sequence_number = 7,
      sess_Preauth_HashValue = replicate 64 0xAB\<rparr>"

definition test_sess_md5 :: cifssrv_sess where
  "test_sess_md5 = test_sess\<lparr>server := (server test_sess)
     \<lparr>secmech := (\<lambda>a. None)(HMAC_MD5 \<mapsto> \<lparr>tfm_key = [], desc_data = []\<rparr>)\<rparr>\<rparr>"

definition secbuf :: "nat \<Rightarrow> nat \<Rightarrow> bytes" where
  "secbuf len off = le16 (of_nat len) @ le16 (of_nat len) @ le32 (of_nat off)"

definition test_authblob :: "nat \<Rightarrow> nat \<Rightarrow> bytes \<Rightarrow> bytes" where
  "test_authblob nt_len nt_off payload =
     NTLMSSP_SIGNATURE @ le32 3 @ secbuf 0 64 @ secbuf nt_len nt_off @ secbuf 0 64 @
     secbuf 0 64 @ secbuf 0 64 @ secbuf 0 64 @ le32 0 @ payload"

definition test_pdu :: bytes where
  "test_pdu = [0, 0, 0, 6, 0xFE, 0x53, 0x4D, 0x42, 1, 2, 0xEE, 0xEE]"

definition test_chgblob :: CHALLENGE_MESSAGE where
  "test_chgblob =
     \<lparr>Signature = replicate 8 0, MessageType = 0,
      TargetName = \<lparr>Length = 0, MaximumLength = 0, BufferOffset = 0\<rparr>,
      NegotiateFlags = 0, Challenge = replicate 8 0, Reserved = replicate 8 0,
      TargetInfoArray = \<lparr>Length = 0, MaximumLength = 0, BufferOffset = 0\<rparr>\<rparr>"

section \<open>Buffers and comparisons\<close>

lemma length_digest_bytes [simp]: "length (digest_bytes n w) = n"
  by (simp add: digest_bytes_def)

lemma length_shash_digest [simp]: "length (shash_digest P a k d) = digestsize a"
  by (cases a) simp_all

lemma length_cstr [simp]: "length (cstr s) = Suc (length s)"
  by (simp add: cstr_def ascii_def)

lemma length_le16 [simp]: "length (le16 w) = 2"
  by (simp add: le16_def)

lemma length_le16s [simp]: "length (le16s us) = 2 * length us"
  by (induction us) (simp_all add: le16s_def)

lemma le16s_append [simp]: "le16s (xs @ ys) = le16s xs @ le16s ys"
  by (simp add: le16s_def)

lemma length_UniStrupr [simp]: "length (UniStrupr P us) = length us"
proof -
  have "length (takeWhile (\<lambda>c. c \<noteq> 0) us) + length (dropWhile (\<lambda>c. c \<noteq> 0) us) = length us"
    by (metis length_append takeWhile_dropWhile_id)
  then show ?thesis by (simp add: UniStrupr_def)
qed

lemma UniStrupr_terminated: "UniStrupr P (us @ [0]) = UniStrupr P us @ [0]"
  by (induction us) (simp_all add: UniStrupr_def)

lemma peek_bind:
  "Option.bind (peek m off n) f = (if off + n \<le> length m then f (take n (drop off m)) else None)"
  by (simp add: peek_def)

lemma poke_bind:
  "Option.bind (poke m off bs) f =
     (if off + length bs \<le> length m then f (take off m @ bs @ drop (off + length bs) m) else None)"
  by (simp add: poke_def)

lemma memset0_bind:
  "Option.bind (memset0 m n) f = (if n \<le> length m then f (replicate n 0 @ drop n m) else None)"
  by (simp add: memset0_def poke_def)

lemma if_None_eq_Some: "((if c then x else None) = Some r) = (c \<and> x = Some r)"
  by simp

lemma memcmp_zero_iff:
  "n \<le> length a \<Longrightarrow> n \<le> length b \<Longrightarrow>
     \<exists>c. memcmp a b n = Some c \<and> (c = 0 \<longleftrightarrow> take n a = take n b)"
proof (induction a b n rule: memcmp.induct)
  case (2 c1 cs c2 ct n)
  then show ?case by (auto simp: word_uint_eq_iff)
qed simp_all

lemma strncmp_refl: "n \<le> length a \<Longrightarrow> strncmp a a n = Some 0"
proof (induction a arbitrary: n)
  case Nil
  then show ?case by simp
next
  case (Cons x xs)
  then show ?case by (cases n) auto
qed

lemma strncmp_nul:
  "i < n \<Longrightarrow> n \<le> length a \<Longrightarrow> n \<le> length b \<Longrightarrow> take (Suc i) a = take (Suc i) b \<Longrightarrow>
     b ! i = 0 \<Longrightarrow> strncmp a b n = Some 0"
proof (induction a b n arbitrary: i rule: strncmp.induct)
  case (2 c1 cs c2 ct n)
  show ?case
  proof (cases i)
    case 0
    with 2 show ?thesis by simp
  next
    case (Suc j)
    with 2 show ?thesis by auto
  qed
qed simp_all

lemma strncmp_numeral [simp]:
  "strncmp (c1 # cs) (c2 # ct) (numeral k) =
     (if c1 \<noteq> c2 then Some (if c1 < c2 then - 1 else 1)
      else if c1 = 0 then Some 0
      else strncmp cs ct (pred_numeral k))"
  "strncmp [] ct (numeral k) = None"
  "strncmp cs [] (numeral k) = None"
  by (simp_all add: numeral_eq_Suc)

lemma memcmp_numeral [simp]:
  "memcmp (c1 # cs) (c2 # ct) (numeral k) =
     (if c1 \<noteq> c2 then Some (uint c1 - uint c2) else memcmp cs ct (pred_numeral k))"
  "memcmp [] ct (numeral k) = None"
  "memcmp cs [] (numeral k) = None"
  by (simp_all add: numeral_eq_Suc)

lemma replicate_num: "replicate (numeral k) x = x # replicate (pred_numeral k) x"
  by (simp add: numeral_eq_Suc)

lemma strncmp_empty: "0 < n \<Longrightarrow> strncmp [] b n = None"
  by (cases n) simp_all

lemma strncmp_total: "n \<le> length a \<Longrightarrow> n \<le> length b \<Longrightarrow> strncmp a b n \<noteq> None"
  by (induction a b n rule: strncmp.induct) auto

section \<open>The steps of the hash interface\<close>

lemma setkey_Some_iff:
  "crypto_shash_setkey P a key n srv = Some (rc, srv') \<longleftrightarrow>
     (\<exists>c. secmech srv a = Some c \<and> n \<le> length key \<and> rc = setkey_rc P a (take n key) \<and>
          srv' = (if rc \<noteq> 0 then srv
                  else srv\<lparr>secmech := (secmech srv)(a \<mapsto> c\<lparr>tfm_key := take n key\<rparr>)\<rparr>))"
  unfolding crypto_shash_setkey_def peek_def
  by (cases "secmech srv a") (auto simp: Let_def)

lemma init_Some_iff:
  "crypto_shash_init P a srv = Some (rc, srv') \<longleftrightarrow>
     (\<exists>c. secmech srv a = Some c \<and> rc = init_rc P a \<and>
          srv' = (if rc \<noteq> 0 then srv
                  else srv\<lparr>secmech := (secmech srv)(a \<mapsto> c\<lparr>desc_data := []\<rparr>)\<rparr>))"
  unfolding crypto_shash_init_def
  by (cases "secmech srv a") (auto simp: Let_def)

lemma update_Some_iff:
  "crypto_shash_update P a data n srv = Some (rc, srv') \<longleftrightarrow>
     (\<exists>c. secmech srv a = Some c \<and> n \<le> length data \<and> rc = update_rc P a (take n data) \<and>
          srv' = (if rc \<noteq> 0 then srv
                  else srv\<lparr>secmech := (secmech srv)(a \<mapsto> c\<lparr>desc_data := desc_data c @ take n data\<rparr>)\<rparr>))"
  unfolding crypto_shash_update_def peek_def
  by (cases "secmech srv a") (auto simp: Let_def)

lemma final_Some_iff:
  "crypto_shash_final P a out srv = Some (rc, out') \<longleftrightarrow>
     (\<exists>c. secmech srv a = Some c \<and> rc = final_rc P a (tfm_key c) (desc_data c) \<and>
          (if rc \<noteq> 0 then out' = out
           else digestsize a \<le> length out \<and>
                out' = shash_digest P a (tfm_key c) (desc_data c) @ drop (digestsize a) out))"
  unfolding crypto_shash_final_def poke_def
  by (cases "secmech srv a") (auto simp: Let_def)

lemma on_server_Some_iff:
  "on_server f sess = Some (rc, sess') \<longleftrightarrow>
     (\<exists>srv'. f (server sess) = Some (rc, srv') \<and> sess' = sess\<lparr>server := srv'\<rparr>)"
  unfolding on_server_def by (cases "f (server sess)") auto

lemma only_ctx_refl [simp]: "only_ctx s s"
  by (simp add: only_ctx_def)

lemma alloc_keeps:
  "on_server (\<lambda>srv. Some (crypto_alloc P a srv)) s = Some (rc, s') \<Longrightarrow> only_ctx s0 s \<Longrightarrow>
     only_ctx s0 s'"
  unfolding on_server_Some_iff crypto_alloc_def only_ctx_def
  by (auto split: if_splits)

lemma setkey_keeps:
  "on_server (crypto_shash_setkey P a key n) s = Some (rc, s') \<Longrightarrow> only_ctx s0 s \<Longrightarrow>
     only_ctx s0 s'"
  unfolding on_server_Some_iff setkey_Some_iff only_ctx_def
  by (auto split: if_splits)

lemma init_keeps:
  "on_server (crypto_shash_init P a) s = Some (rc, s') \<Longrightarrow> only_ctx s0 s \<Longrightarrow> only_ctx s0 s'"
  unfolding on_server_Some_iff init_Some_iff only_ctx_def
  by (auto split: if_splits)

lemma update_keeps:
  "on_server (crypto_shash_update P a data n) s = Some (rc, s') \<Longrightarrow> only_ctx s0 s \<Longrightarrow>
     only_ctx s0 s'"
  unfolding on_server_Some_iff update_Some_iff only_ctx_def
  by (auto split: if_splits)

lemmas step_keeps = alloc_keeps setkey_keeps init_keeps update_keeps

lemma hs_only_ctx: "hs s0 a k d s \<Longrightarrow> only_ctx s0 s"
  by (simp add: hs_def)

lemma setkey_ctx:
  "on_server (crypto_shash_setkey P a key n) s = Some (0, s') \<Longrightarrow> only_ctx s0 s \<Longrightarrow>
     hs s0 a (take n key) (ctx_data (server s) a) s' \<and> n \<le> length key"
  unfolding on_server_Some_iff setkey_Some_iff only_ctx_def ctx_key_def ctx_data_def hs_def
  by (auto split: if_splits)

lemma init_ctx:
  "on_server (crypto_shash_init P a) s = Some (0, s') \<Longrightarrow> hs s0 a k d s \<Longrightarrow> hs s0 a k [] s'"
  unfolding on_server_Some_iff init_Some_iff only_ctx_def ctx_key_def ctx_data_def hs_def
  by (auto split: if_splits)

lemma update_ctx:
  "on_server (crypto_shash_update P a data n) s = Some (0, s') \<Longrightarrow> hs s0 a k d s \<Longrightarrow>
     hs s0 a k (d @ take n data) s' \<and> n \<le> length data"
  unfolding on_server_Some_iff update_Some_iff only_ctx_def ctx_key_def ctx_data_def hs_def
  by (auto split: if_splits)

lemma final_ctx:
  "crypto_shash_final P a out (server s) = Some (0, out') \<Longrightarrow> hs s0 a k d s \<Longrightarrow>
     out' = shash_digest P a k d @ drop (digestsize a) out \<and> digestsize a \<le> length out"
  unfolding final_Some_iff ctx_key_def ctx_data_def hs_def
  by (auto split: if_splits)

lemma final_keeps:
  "crypto_shash_final P a out srv = Some (rc, out') \<Longrightarrow> rc \<noteq> 0 \<Longrightarrow> out' = out"
  unfolding final_Some_iff by auto

lemma final_length:
  "crypto_shash_final P a out srv = Some (rc, out') \<Longrightarrow> length out' = length out"
  unfolding final_Some_iff by (auto split: if_splits)

lemma if_update:
  "(if c then on_server (crypto_shash_update P a d1 n1) s
    else on_server (crypto_shash_update P a d2 n2) s) =
   on_server (crypto_shash_update P a (if c then d1 else d2) (if c then n1 else n2)) s"
  by simp

section \<open>Sequencing\<close>

lemma bind_rc_success:
  "(Option.bind m (\<lambda>(rc, s). if rc \<noteq> 0 then Some (rc, e rc s) else k rc s) = Some (0, r)) =
   (\<exists>s. m = Some (0, s) \<and> k 0 s = Some (0, r))"
  by (cases m) (auto split: if_splits)

lemma bind_rc_iff:
  "(Option.bind m (\<lambda>(rc, s). if rc \<noteq> 0 then e rc s else k rc s) = Some r) =
   ((\<exists>rc s. m = Some (rc, s) \<and> rc \<noteq> 0 \<and> e rc s = Some r) \<or>
    (\<exists>s. m = Some (0, s) \<and> k 0 s = Some r))"
  by (cases m) (auto split: if_splits)

lemma bind_rc3_iff:
  "(Option.bind m (\<lambda>(rc, s, h). if rc \<noteq> 0 then e rc s h else k rc s h) = Some r) =
   ((\<exists>rc s h. m = Some (rc, s, h) \<and> rc \<noteq> 0 \<and> e rc s h = Some r) \<or>
    (\<exists>s h. m = Some (0, s, h) \<and> k 0 s h = Some r))"
  by (cases m) (auto split: if_splits)

section \<open>NTLMv1 verification\<close>

lemma process_ntlm_eq:
  assumes "CIFS_NTHASH_SIZE \<le> length (passkey (usr sess))"
    and "CIFS_CRYPTO_KEY_SIZE \<le> length (cryptkey (ntlmssp sess))"
    and "40 \<le> length (sess_key sess)"
    and "E_P24 P (take 16 (passkey (usr sess)) @ replicate 5 0) (take 8 (cryptkey (ntlmssp sess))) = (rc, k)"
  shows "process_ntlm P sess pw_buf =
     (if rc \<noteq> 0 then Some (rc, sess)
      else map_option
        (\<lambda>c. (if c \<noteq> 0 then - EINVAL else 0,
              sess\<lparr>sess_key := digest_bytes 16 (smb_mdfour P (take 16 (passkey (usr sess)))) @
                               digest_bytes 24 k @ drop 40 (sess_key sess),
                   sequence_number := 1\<rparr>))
        (strncmp pw_buf (digest_bytes 24 k) 24))"
  using assms unfolding process_ntlm_def
  by (cases "strncmp pw_buf (digest_bytes 24 k) 24")
     (simp_all add: peek_bind poke_bind Let_def CIFS_NTHASH_SIZE_def CIFS_CRYPTO_KEY_SIZE_def
        CIFS_AUTH_RESP_SIZE_def CIFS_SMB1_SESSKEY_SIZE_def)

text \<open>
  Claim C4: there are two distinct 24-byte client responses that NTLMv1 verification
  accepts for the same credential and challenge. Whenever the DES step succeeds and the
  response it computes has a zero byte at some position \<open>i\<close> before the last one,
  \<open>process_ntlm\<close> returns 0 for the computed response itself and for the computed response
  with its last byte changed: \<open>strncmp\<close> stops at the zero byte and never looks at what
  follows it.
\<close>

theorem ntlm_compare_stops_at_nul:
  assumes "CIFS_NTHASH_SIZE \<le> length (passkey (usr sess))"
    and "CIFS_CRYPTO_KEY_SIZE \<le> length (cryptkey (ntlmssp sess))"
    and "40 \<le> length (sess_key sess)"
    and "E_P24 P (take 16 (passkey (usr sess)) @ replicate 5 0) (take 8 (cryptkey (ntlmssp sess))) = (0, k)"
    and "i < 23" and "digest_bytes 24 k ! i = 0"
  shows "\<exists>r1 r2. length r1 = 24 \<and> length r2 = 24 \<and> r1 \<noteq> r2 \<and>
           map_option fst (process_ntlm P sess r1) = Some 0 \<and>
           map_option fst (process_ntlm P sess r2) = Some 0"
proof -
  let ?key = "digest_bytes 24 k"
  let ?r2 = "?key[23 := ?key ! 23 + 1]"
  have "take (Suc i) ?r2 = take (Suc i) ?key"
    using \<open>i < 23\<close> by simp
  with assms(5,6) have "strncmp ?r2 ?key 24 = Some 0"
    by (intro strncmp_nul[where i = i]) simp_all
  moreover have "strncmp ?key ?key 24 = Some 0"
    by (simp add: strncmp_refl)
  moreover have "?key \<noteq> ?r2"
  proof
    assume "?key = ?r2"
    then have "?key ! 23 = ?r2 ! 23" by simp
    then show False by simp
  qed
  ultimately show ?thesis
    using process_ntlm_eq[OF assms(1-4)]
    by (intro exI[of _ ?key] exI[of _ ?r2]) simp
qed

lemma test_E_P24:
  "E_P24 test_prims p [1, 2, 3, 4, 5, 6, 7, 8] = (0, 0x0102030405060708)"
  by (simp add: test_prims_def be_nat_def)

lemma test_response:
  "digest_bytes 24 (0x0102030405060708 :: 192 word) = replicate 16 0 @ [1, 2, 3, 4, 5, 6, 7, 8]"
  by (simp add: digest_bytes_def upt_conv_Cons replicate_num)

text \<open>
  For the test session the computed response is sixteen zero bytes followed by the
  challenge, so the comparison already stops at the first byte.
\<close>

theorem ntlm_compare_stops_at_nul_witness:
  "\<exists>r1 r2. length r1 = 24 \<and> length r2 = 24 \<and> r1 \<noteq> r2 \<and>
     map_option fst (process_ntlm test_prims test_sess r1) = Some 0 \<and>
     map_option fst (process_ntlm test_prims test_sess r2) = Some 0"
  using ntlm_compare_stops_at_nul[of test_sess test_prims "0x0102030405060708" 0]
  by (simp add: test_sess_def test_E_P24 test_response CIFS_NTHASH_SIZE_def CIFS_CRYPTO_KEY_SIZE_def
        replicate_num)


section \<open>Decoding the negotiate and authenticate messages\<close>

lemmas size_defs =
  CIFS_AUTH_RESP_SIZE_def CIFS_ENCPWD_SIZE_def CIFS_NTHASH_SIZE_def
  CIFS_CRYPTO_KEY_SIZE_def CIFS_HMAC_MD5_HASH_SIZE_def CIFS_SMB1_SESSKEY_SIZE_def
  SMB2_NTLMV2_SESSKEY_SIZE_def SMB2_HMACSHA256_SIZE_def

lemma length_NTLMSSP_SIGNATURE [simp]: "length NTLMSSP_SIGNATURE = 8"
  by (simp add: NTLMSSP_SIGNATURE_def)

lemma signature_check:
  assumes "8 \<le> length m"
  shows "\<exists>c. memcmp m NTLMSSP_SIGNATURE 8 = Some c \<and> (c = 0 \<longleftrightarrow> take 8 m = NTLMSSP_SIGNATURE)"
  using memcmp_zero_iff[of 8 m NTLMSSP_SIGNATURE] assms by simp

lemma get_secbuf_Some:
  "off + 8 \<le> length m \<Longrightarrow> \<exists>sb. get_secbuf m off = Some sb"
  by (simp add: get_secbuf_def get_le16_def get_le32_def peek_def)

text \<open>
  Claim C5: a buffer shorter than the fixed negotiate message (32 bytes), or one whose first
  8 bytes are not the NTLMSSP signature, makes \<open>decode_ntlmssp_negotiate_blob\<close> return
  \<open>-EINVAL\<close> with the session as it was; the same holds for
  \<open>decode_ntlmssp_authenticate_blob\<close> and the fixed authenticate message (64 bytes). The
  result does not depend on any field behind the signature, on the credential or on the
  primitives: nothing else is processed.
\<close>

theorem decode_rejects_short_or_unsigned:
  "(length negblob < sizeof_NEGOTIATE_MESSAGE \<or> take 8 negblob \<noteq> NTLMSSP_SIGNATURE \<longrightarrow>
      decode_ntlmssp_negotiate_blob negblob sess = Some (- EINVAL, sess)) \<and>
   (length authblob < sizeof_AUTHENTICATE_MESSAGE \<or> take 8 authblob \<noteq> NTLMSSP_SIGNATURE \<longrightarrow>
      decode_ntlmssp_authenticate_blob P authblob sess = Some (- EINVAL, sess))"
proof (intro conjI impI)
  assume a: "length negblob < sizeof_NEGOTIATE_MESSAGE \<or> take 8 negblob \<noteq> NTLMSSP_SIGNATURE"
  show "decode_ntlmssp_negotiate_blob negblob sess = Some (- EINVAL, sess)"
  proof (cases "length negblob < sizeof_NEGOTIATE_MESSAGE")
    case True
    then show ?thesis by (simp add: decode_ntlmssp_negotiate_blob_def)
  next
    case False
    then have "8 \<le> length negblob" by (simp add: sizeof_NEGOTIATE_MESSAGE_def)
    from signature_check[OF this] a False obtain c
      where "memcmp negblob NTLMSSP_SIGNATURE 8 = Some c" "c \<noteq> 0" by auto
    with False show ?thesis by (simp add: decode_ntlmssp_negotiate_blob_def)
  qed
next
  assume a: "length authblob < sizeof_AUTHENTICATE_MESSAGE \<or> take 8 authblob \<noteq> NTLMSSP_SIGNATURE"
  show "decode_ntlmssp_authenticate_blob P authblob sess = Some (- EINVAL, sess)"
  proof (cases "length authblob < sizeof_AUTHENTICATE_MESSAGE")
    case True
    then show ?thesis by (simp add: decode_ntlmssp_authenticate_blob_def)
  next
    case False
    then have "8 \<le> length authblob" by (simp add: sizeof_AUTHENTICATE_MESSAGE_def)
    from signature_check[OF this] a False obtain c
      where "memcmp authblob NTLMSSP_SIGNATURE 8 = Some c" "c \<noteq> 0" by auto
    with False show ?thesis by (simp add: decode_ntlmssp_authenticate_blob_def)
  qed
qed

lemma decode_authenticate_eq:
  assumes "sizeof_AUTHENTICATE_MESSAGE \<le> length authblob"
    and "take 8 authblob = NTLMSSP_SIGNATURE"
  obtains nt dn where "auth_NtChallengeResponse authblob = Some nt"
    and "auth_DomainName authblob = Some dn"
    and "decode_ntlmssp_authenticate_blob P authblob sess =
      (if unat (Length nt) = CIFS_AUTH_RESP_SIZE
       then process_ntlm P sess (drop (unat (BufferOffset nt)) authblob)
       else process_ntlmv2 P sess (drop (unat (BufferOffset nt)) authblob)
              (int (unat (Length nt)) - int CIFS_ENCPWD_SIZE)
              (smb_strndup_from_utf16 P (drop (unat (BufferOffset dn)) authblob)
                 (unat (Length dn))))"
proof -
  from assms(1) have l: "8 \<le> length authblob" "20 + 8 \<le> length authblob" "28 + 8 \<le> length authblob"
    by (simp_all add: sizeof_AUTHENTICATE_MESSAGE_def)
  from signature_check[OF l(1)] assms(2)
  have c: "memcmp authblob NTLMSSP_SIGNATURE 8 = Some 0" by auto
  from get_secbuf_Some[OF l(2)] obtain nt where nt: "auth_NtChallengeResponse authblob = Some nt"
    by (auto simp: auth_NtChallengeResponse_def)
  from get_secbuf_Some[OF l(3)] obtain dn where dn: "auth_DomainName authblob = Some dn"
    by (auto simp: auth_DomainName_def)
  from assms(1) c nt dn show thesis
    by (intro that[of nt dn]) (simp_all add: decode_ntlmssp_authenticate_blob_def Let_def)
qed

text \<open>
  Claim C3: for an authenticate message that passes the size and signature checks, the
  decoder is \<open>process_ntlm\<close> on the referenced bytes when the length of the
  NT-challenge-response buffer is exactly 24, and \<open>process_ntlmv2\<close> for every other length;
  the blob length handed to \<open>process_ntlmv2\<close> is that length minus 16, as a signed number and
  without a check that the length is at least 16 (so it is negative for a length below 16).
\<close>

theorem authenticate_dispatch_by_length:
  assumes "sizeof_AUTHENTICATE_MESSAGE \<le> length authblob"
    and "take 8 authblob = NTLMSSP_SIGNATURE"
  shows "\<exists>nt dn. auth_NtChallengeResponse authblob = Some nt \<and>
     auth_DomainName authblob = Some dn \<and>
     decode_ntlmssp_authenticate_blob P authblob sess =
       (if unat (Length nt) = 24
        then process_ntlm P sess (drop (unat (BufferOffset nt)) authblob)
        else process_ntlmv2 P sess (drop (unat (BufferOffset nt)) authblob)
               (int (unat (Length nt)) - 16)
               (smb_strndup_from_utf16 P (drop (unat (BufferOffset dn)) authblob)
                  (unat (Length dn))))"
proof -
  from decode_authenticate_eq[OF assms, of P sess] obtain nt dn
    where "auth_NtChallengeResponse authblob = Some nt"
      and "auth_DomainName authblob = Some dn"
      and "decode_ntlmssp_authenticate_blob P authblob sess =
        (if unat (Length nt) = CIFS_AUTH_RESP_SIZE
         then process_ntlm P sess (drop (unat (BufferOffset nt)) authblob)
         else process_ntlmv2 P sess (drop (unat (BufferOffset nt)) authblob)
                (int (unat (Length nt)) - int CIFS_ENCPWD_SIZE)
                (smb_strndup_from_utf16 P (drop (unat (BufferOffset dn)) authblob)
                   (unat (Length dn))))"
    by blast
  then show ?thesis
    by (intro exI[of _ nt] exI[of _ dn]) (simp add: CIFS_AUTH_RESP_SIZE_def CIFS_ENCPWD_SIZE_def)
qed

lemma process_ntlm_ok:
  assumes "CIFS_NTHASH_SIZE \<le> length (passkey (usr sess))"
    and "CIFS_CRYPTO_KEY_SIZE \<le> length (cryptkey (ntlmssp sess))"
    and "40 \<le> length (sess_key sess)"
    and "fst (E_P24 P (take 16 (passkey (usr sess)) @ replicate 5 0)
                (take 8 (cryptkey (ntlmssp sess)))) = 0"
  shows "process_ntlm P sess pw_buf = None \<longleftrightarrow>
     strncmp pw_buf (digest_bytes 24 (snd (E_P24 P (take 16 (passkey (usr sess)) @ replicate 5 0)
                (take 8 (cryptkey (ntlmssp sess)))))) 24 = None"
proof -
  define k where "k = snd (E_P24 P (take 16 (passkey (usr sess)) @ replicate 5 0)
      (take 8 (cryptkey (ntlmssp sess))))"
  have k: "E_P24 P (take 16 (passkey (usr sess)) @ replicate 5 0)
      (take 8 (cryptkey (ntlmssp sess))) = (0, k)"
    unfolding k_def using assms(4) by (simp add: prod_eq_iff)
  show ?thesis
    unfolding process_ntlm_eq[OF assms(1-3) k] k_def[symmetric] by simp
qed

lemma decode_authenticate_ntlm:
  assumes "sizeof_AUTHENTICATE_MESSAGE \<le> length authblob"
    and "take 8 authblob = NTLMSSP_SIGNATURE"
    and "auth_NtChallengeResponse authblob = Some nt"
    and "unat (Length nt) = CIFS_AUTH_RESP_SIZE"
  shows "decode_ntlmssp_authenticate_blob P authblob sess =
      process_ntlm P sess (drop (unat (BufferOffset nt)) authblob)"
proof (rule decode_authenticate_eq[OF assms(1,2), of P sess])
  fix nt' dn
  assume "auth_NtChallengeResponse authblob = Some nt'"
    and "decode_ntlmssp_authenticate_blob P authblob sess =
        (if unat (Length nt') = CIFS_AUTH_RESP_SIZE
         then process_ntlm P sess (drop (unat (BufferOffset nt')) authblob)
         else process_ntlmv2 P sess (drop (unat (BufferOffset nt')) authblob)
                (int (unat (Length nt')) - int CIFS_ENCPWD_SIZE)
                (smb_strndup_from_utf16 P (drop (unat (BufferOffset dn)) authblob)
                   (unat (Length dn))))"
  with assms(3) assms(4) show ?thesis by simp
qed


lemmas test_blob_eval =
  test_authblob_def secbuf_def auth_NtChallengeResponse_def auth_DomainName_def get_secbuf_def
  get_le16_def get_le32_def peek_def NTLMSSP_SIGNATURE_def cstr_def ascii_def le32_def le16_def
  le_nat_def sizeof_AUTHENTICATE_MESSAGE_def sizeof_NEGOTIATE_MESSAGE_def replicate_num

theorem decode_rejects_short_or_unsigned_witness:
  "decode_ntlmssp_negotiate_blob (NTLMSSP_SIGNATURE @ le32 1) test_sess = Some (- EINVAL, test_sess) \<and>
   decode_ntlmssp_authenticate_blob test_prims (replicate 64 0) test_sess =
     Some (- EINVAL, test_sess)"
  using decode_rejects_short_or_unsigned[of "NTLMSSP_SIGNATURE @ le32 1" test_sess
      "replicate 64 0" test_prims]
  by (simp add: test_blob_eval)

theorem authenticate_dispatch_by_length_witness:
  "decode_ntlmssp_authenticate_blob test_prims (test_authblob 24 64 (replicate 24 0)) test_sess =
     process_ntlm test_prims test_sess (replicate 24 0) \<and>
   decode_ntlmssp_authenticate_blob test_prims (test_authblob 0 64 []) test_sess =
     process_ntlmv2 test_prims test_sess [] (- 16) (Some [])"
  using authenticate_dispatch_by_length[of "test_authblob 24 64 (replicate 24 0)" test_prims test_sess]
    authenticate_dispatch_by_length[of "test_authblob 0 64 []" test_prims test_sess]
  by (simp add: test_blob_eval test_prims_def)



section \<open>The SMB3 signing key\<close>

lemma smb3_cases:
  assumes "compute_smb3xsigningkey P sess key key_size = Some (rc, sess', key')"
  shows "key_size \<le> length key \<and>
    (rc \<noteq> 0 \<longrightarrow> key' = replicate key_size 0 @ drop key_size key) \<and>
    (rc = 0 \<longrightarrow> key_size \<le> 32 \<and>
       key' = take key_size (digest_bytes 32 (hmac_sha256 P (take 16 (sess_key sess))
         ([0, 0, 0, 1] @
          (if dialect (server sess) = SMB311_PROT_ID then cstr ''SMBSigningKey''
           else cstr ''SMB2AESCMAC'') @
          [0] @
          (if dialect (server sess) = SMB311_PROT_ID then take 64 (sess_Preauth_HashValue sess)
           else cstr ''SmbSign'') @
          [0, 0, 0, 128]))) @ drop key_size key)"
  using assms
  unfolding compute_smb3xsigningkey_def Let_def memset0_bind if_update bind_rc_iff if_None_eq_Some
    crypto_hmacsha256_alloc_def crypto_cmac_alloc_def
  apply (elim disjE conjE exE)
  apply ((simp; fail)+)[10]
  apply (insert only_ctx_refl[of sess])
  apply (drule (1) alloc_keeps)
  apply (drule (1) alloc_keeps)
  apply (drule (1) setkey_ctx)
  apply (elim conjE)
  apply (drule (1) init_ctx)
  apply (drule (1) update_ctx, elim conjE)+
  apply (drule (1) final_ctx)
  apply (auto simp: hs_def only_ctx_def peek_bind poke_bind SMB2_HMACSHA256_SIZE_def
           SMB2_NTLMV2_SESSKEY_SIZE_def split: if_splits)
  done

lemmas run_eval =
  on_server_def crypto_alloc_def crypto_hmacmd5_alloc_def crypto_hmacsha256_alloc_def
  crypto_cmac_alloc_def crypto_sha512_alloc_def crypto_shash_setkey_def crypto_shash_init_def
  crypto_shash_update_def crypto_shash_final_def peek_def poke_def memset0_def Let_def
  size_defs replicate_num cstr_def ascii_def

lemmas step_defs =
  on_server_def crypto_alloc_def crypto_hmacmd5_alloc_def crypto_hmacsha256_alloc_def
  crypto_cmac_alloc_def crypto_sha512_alloc_def crypto_shash_setkey_def crypto_shash_init_def
  crypto_shash_update_def crypto_shash_final_def peek_def poke_def memset0_def Let_def size_defs

lemma prims_ok_test: "prims_ok test_prims"
  by (simp add: prims_ok_def test_prims_def)

lemma smb3_succeeds:
  assumes "prims_ok P"
    and "key_size \<le> length key" and "key_size \<le> 32"
    and "16 \<le> length (sess_key sess)"
    and "dialect (server sess) = SMB311_PROT_ID \<longrightarrow> 64 \<le> length (sess_Preauth_HashValue sess)"
  shows "\<exists>sess' key'. compute_smb3xsigningkey P sess key key_size = Some (0, sess', key')"
  using assms
  by (cases "secmech (server sess) HMAC_SHA256"; cases "secmech (server sess) CMAC_AES")
     (simp_all add: compute_smb3xsigningkey_def prims_ok_def step_defs)

text \<open>
  Claim C6: when \<open>compute_smb3xsigningkey\<close> returns 0, the first \<open>key_size\<close> bytes of the key
  buffer are the first \<open>key_size\<close> bytes of the 32-byte HMAC-SHA256, keyed by the (first 16
  bytes of the) session key, of: the big-endian counter 1 in 4 bytes, the label with its
  terminating NUL (\<open>SMBSigningKey\<close> for dialect 3.1.1, \<open>SMB2AESCMAC\<close> otherwise), one zero
  byte, the context (the 64 bytes of the session's preauthentication hash for 3.1.1,
  otherwise the string \<open>SmbSign\<close>, which the code feeds with its terminating NUL, 8 bytes),
  and the big-endian value 128 in 4 bytes. And it does return 0 when every step of the
  hash interface succeeds, \<open>key_size\<close> is at most 32 and fits the key buffer, the session key
  has its 16 bytes and, for 3.1.1, the preauthentication hash its 64.
\<close>

theorem smb3_signing_key_derivation:
  "(compute_smb3xsigningkey P sess key key_size = Some (0, sess', key') \<longrightarrow>
      take key_size key' =
      take key_size (digest_bytes 32 (hmac_sha256 P (take 16 (sess_key sess))
        ([0, 0, 0, 1] @
         (if dialect (server sess) = SMB311_PROT_ID then cstr ''SMBSigningKey''
          else cstr ''SMB2AESCMAC'') @
         [0] @
         (if dialect (server sess) = SMB311_PROT_ID then take 64 (sess_Preauth_HashValue sess)
          else cstr ''SmbSign'') @
         [0, 0, 0, 128])))) \<and>
   (prims_ok P \<and> key_size \<le> length key \<and> key_size \<le> 32 \<and> 16 \<le> length (sess_key sess) \<and>
    (dialect (server sess) = SMB311_PROT_ID \<longrightarrow> 64 \<le> length (sess_Preauth_HashValue sess)) \<longrightarrow>
      (\<exists>s k. compute_smb3xsigningkey P sess key key_size = Some (0, s, k)))"
proof (intro conjI impI)
  assume "compute_smb3xsigningkey P sess key key_size = Some (0, sess', key')"
  from smb3_cases[OF this]
  show "take key_size key' =
      take key_size (digest_bytes 32 (hmac_sha256 P (take 16 (sess_key sess))
        ([0, 0, 0, 1] @
         (if dialect (server sess) = SMB311_PROT_ID then cstr ''SMBSigningKey''
          else cstr ''SMB2AESCMAC'') @
         [0] @
         (if dialect (server sess) = SMB311_PROT_ID then take 64 (sess_Preauth_HashValue sess)
          else cstr ''SmbSign'') @
         [0, 0, 0, 128])))"
    by simp
next
  assume "prims_ok P \<and> key_size \<le> length key \<and> key_size \<le> 32 \<and> 16 \<le> length (sess_key sess) \<and>
    (dialect (server sess) = SMB311_PROT_ID \<longrightarrow> 64 \<le> length (sess_Preauth_HashValue sess))"
  then show "\<exists>s k. compute_smb3xsigningkey P sess key key_size = Some (0, s, k)"
    by (intro smb3_succeeds) simp_all
qed

lemma test_smb3_run:
  "\<exists>s. compute_smb3xsigningkey test_prims test_sess (replicate 32 255) 32 =
         Some (0, s, replicate 30 0 @ [0x30, 0x1B])"
  by (simp add: compute_smb3xsigningkey_def run_eval test_prims_def test_sess_def
        digest_bytes_def upt_conv_Cons SMB311_PROT_ID_def)

theorem smb3_signing_key_derivation_witness:
  "\<exists>s k. compute_smb3xsigningkey test_prims test_sess (replicate 32 255) 32 = Some (0, s, k) \<and>
       take 32 k =
       take 32 (digest_bytes 32 (hmac_sha256 test_prims (take 16 (sess_key test_sess))
         ([0, 0, 0, 1] @ cstr ''SMBSigningKey'' @ [0] @
          take 64 (sess_Preauth_HashValue test_sess) @ [0, 0, 0, 128]))) \<and>
       k = replicate 30 0 @ [0x30, 0x1B]"
proof -
  have d: "dialect (server test_sess) = SMB311_PROT_ID"
    and l: "16 \<le> length (sess_key test_sess)" "64 \<le> length (sess_Preauth_HashValue test_sess)"
    by (simp_all add: test_sess_def)
  from smb3_signing_key_derivation[of test_prims test_sess "replicate 32 255" 32 test_sess "[]",
      THEN conjunct2] prims_ok_test l
  have "\<exists>s k. compute_smb3xsigningkey test_prims test_sess (replicate 32 255) 32 = Some (0, s, k)"
    by simp
  then obtain s k
    where r: "compute_smb3xsigningkey test_prims test_sess (replicate 32 255) 32 = Some (0, s, k)"
    by blast
  from test_smb3_run r have k: "k = replicate 30 0 @ [0x30, 0x1B]" by auto
  from smb3_signing_key_derivation[of test_prims test_sess "replicate 32 255" 32 s k] r d k
  show ?thesis by auto
qed

text \<open>
  Claim C10: \<open>compute_smb3xsigningkey\<close> never leaves a partly written key. Whatever it
  returns, the buffer keeps its length and its bytes from \<open>key_size\<close> on; if the return code
  is not 0, the first \<open>key_size\<close> bytes are all zero; if it is 0, \<open>key_size\<close> is at most 32
  and all of the first \<open>key_size\<close> bytes are those of the derived MAC.
\<close>

theorem smb3_signing_key_never_partial:
  assumes "compute_smb3xsigningkey P sess key key_size = Some (rc, sess', key')"
  shows "length key' = length key \<and> drop key_size key' = drop key_size key \<and>
    (rc \<noteq> 0 \<longrightarrow> take key_size key' = replicate key_size 0) \<and>
    (rc = 0 \<longrightarrow> key_size \<le> 32 \<and>
       take key_size key' =
       take key_size (digest_bytes 32 (hmac_sha256 P (take 16 (sess_key sess))
         ([0, 0, 0, 1] @
          (if dialect (server sess) = SMB311_PROT_ID then cstr ''SMBSigningKey''
           else cstr ''SMB2AESCMAC'') @
          [0] @
          (if dialect (server sess) = SMB311_PROT_ID then take 64 (sess_Preauth_HashValue sess)
           else cstr ''SmbSign'') @
          [0, 0, 0, 128]))))"
  using smb3_cases[OF assms] by (cases "rc = 0") simp_all

lemma test_smb3_fail:
  "\<exists>s. compute_smb3xsigningkey failing_final test_sess (replicate 16 255) 16 =
         Some (- EINVAL, s, replicate 16 0)"
  by (simp add: compute_smb3xsigningkey_def run_eval test_prims_def test_sess_def failing_final_def
        SMB311_PROT_ID_def EINVAL_def)

theorem smb3_signing_key_never_partial_witness:
  "\<exists>s. compute_smb3xsigningkey failing_final test_sess (replicate 16 255) 16 =
         Some (- EINVAL, s, replicate 16 0) \<and>
       take 16 (replicate 16 (0 :: u8)) = replicate 16 0"
proof -
  from test_smb3_fail obtain s
    where r: "compute_smb3xsigningkey failing_final test_sess (replicate 16 255) 16 =
      Some (- EINVAL, s, replicate 16 0)" ..
  from smb3_signing_key_never_partial[OF r] r show ?thesis by (auto simp: EINVAL_def)
qed

section \<open>The preauthentication integrity hash\<close>

lemma alloc_srv:
  "Some (crypto_alloc P a srv) = Some (rc, srv') \<Longrightarrow>
     dialect srv' = dialect srv \<and> Preauth_HashValue srv' = Preauth_HashValue srv"
  unfolding crypto_alloc_def by (auto split: if_splits)

lemma init_srv:
  "crypto_shash_init P a srv = Some (0, srv') \<Longrightarrow>
     dialect srv' = dialect srv \<and> Preauth_HashValue srv' = Preauth_HashValue srv \<and>
     ctx_key srv' a = ctx_key srv a \<and> ctx_data srv' a = []"
  unfolding init_Some_iff ctx_key_def ctx_data_def by (auto split: if_splits)

lemma update_srv:
  "crypto_shash_update P a data n srv = Some (0, srv') \<Longrightarrow>
     dialect srv' = dialect srv \<and> Preauth_HashValue srv' = Preauth_HashValue srv \<and>
     ctx_key srv' a = ctx_key srv a \<and> ctx_data srv' a = ctx_data srv a @ take n data \<and>
     n \<le> length data"
  unfolding update_Some_iff ctx_key_def ctx_data_def by (auto split: if_splits)

lemma final_srv:
  "crypto_shash_final P a out srv = Some (0, out') \<Longrightarrow>
     out' = shash_digest P a (ctx_key srv a) (ctx_data srv a) @ drop (digestsize a) out \<and>
     digestsize a \<le> length out"
  unfolding final_Some_iff ctx_key_def ctx_data_def by (auto split: if_splits)

lemma final_srv_any:
  "crypto_shash_final P a out srv = Some (rc, out') \<Longrightarrow>
     (rc \<noteq> 0 \<longrightarrow> out' = out) \<and>
     (rc = 0 \<longrightarrow> digestsize a \<le> length out \<and>
        out' = shash_digest P a (ctx_key srv a) (ctx_data srv a) @ drop (digestsize a) out)"
  unfolding final_Some_iff ctx_key_def ctx_data_def by (auto split: if_splits)

lemma bind_pair_iff:
  "(Option.bind m (\<lambda>(rc, x). Some (f rc x)) = Some r) = (\<exists>rc x. m = Some (rc, x) \<and> f rc x = r)"
  by (cases m) auto

lemma preauth_cases:
  assumes "calc_preauth_integrity_hash P srv hash_id buf pi_hash = Some (rc, srv', pi_hash')"
  shows "4 \<le> length buf \<and>
    (hash_id \<noteq> SMB2_PREAUTH_INTEGRITY_SHA512 \<longrightarrow> rc = - 1 \<and> srv' = srv) \<and>
    (rc \<noteq> 0 \<longrightarrow> pi_hash' = pi_hash) \<and>
    (rc = 0 \<longrightarrow> 64 \<le> length (Preauth_HashValue srv) \<and> 4 + be_nat (take 4 buf) \<le> length buf \<and>
       64 \<le> length pi_hash \<and>
       pi_hash' = digest_bytes 64 (sha512 P (take 64 (Preauth_HashValue srv) @
                    take (be_nat (take 4 buf)) (drop 4 buf))) @ drop 64 pi_hash)"
proof (cases "hash_id = SMB2_PREAUTH_INTEGRITY_SHA512")
  case False
  with assms show ?thesis
    unfolding calc_preauth_integrity_hash_def Let_def peek_bind if_None_eq_Some
    by auto
next
  case True
  from assms show ?thesis
    unfolding calc_preauth_integrity_hash_def Let_def peek_bind if_None_eq_Some
    apply (simp only: True refl if_True)
    apply (simp only: bind_rc_iff bind_pair_iff crypto_sha512_alloc_def)
    apply (elim disjE conjE exE)
    apply ((simp; fail)+)[4]
    apply (drule alloc_srv)
    apply (drule init_srv)
    apply (drule update_srv)
    apply (drule update_srv)
    apply (drule final_srv_any)
    apply auto
    done
qed

lemma preauth_succeeds:
  assumes "prims_ok P"
    and "4 \<le> length buf" and "4 + be_nat (take 4 buf) \<le> length buf"
    and "64 \<le> length (Preauth_HashValue srv)" and "64 \<le> length pi_hash"
  shows "\<exists>srv' h. calc_preauth_integrity_hash P srv SMB2_PREAUTH_INTEGRITY_SHA512 buf pi_hash =
           Some (0, srv', h)"
  using assms
  by (cases "secmech srv SHA512")
     (simp_all add: calc_preauth_integrity_hash_def prims_ok_def step_defs)

text \<open>
  Claim C9: with a 64-byte running hash (and a 64-byte output buffer), a successful
  \<open>calc_preauth_integrity_hash\<close> for SHA-512 leaves in the output buffer the SHA-512 of the
  previous running hash followed by the bytes of the message that start behind the 4-byte
  length field, at the protocol identifier; it takes exactly as many of them as the length
  field declares in network byte order, and they all lie within the message. And the
  update does succeed when every step of the hash interface succeeds and the declared
  length lies within the message.
\<close>

theorem preauth_integrity_hash_value:
  "(calc_preauth_integrity_hash P srv SMB2_PREAUTH_INTEGRITY_SHA512 buf pi_hash =
      Some (0, srv', pi_hash') \<and>
    length (Preauth_HashValue srv) = 64 \<and> length pi_hash = 64 \<longrightarrow>
      pi_hash' = digest_bytes 64 (sha512 P (Preauth_HashValue srv @
            take (be_nat (take 4 buf)) (drop 4 buf))) \<and>
      4 + be_nat (take 4 buf) \<le> length buf) \<and>
   (prims_ok P \<and> 4 + be_nat (take 4 buf) \<le> length buf \<and>
    length (Preauth_HashValue srv) = 64 \<and> length pi_hash = 64 \<longrightarrow>
      (\<exists>s h. calc_preauth_integrity_hash P srv SMB2_PREAUTH_INTEGRITY_SHA512 buf pi_hash =
         Some (0, s, h)))"
proof (intro conjI impI)
  assume a: "calc_preauth_integrity_hash P srv SMB2_PREAUTH_INTEGRITY_SHA512 buf pi_hash =
      Some (0, srv', pi_hash') \<and>
    length (Preauth_HashValue srv) = 64 \<and> length pi_hash = 64"
  then have r: "calc_preauth_integrity_hash P srv SMB2_PREAUTH_INTEGRITY_SHA512 buf pi_hash =
      Some (0, srv', pi_hash')" by simp
  from preauth_cases[OF r] a
  show "pi_hash' = digest_bytes 64 (sha512 P (Preauth_HashValue srv @
            take (be_nat (take 4 buf)) (drop 4 buf)))"
    and "4 + be_nat (take 4 buf) \<le> length buf"
    by simp_all
next
  assume "prims_ok P \<and> 4 + be_nat (take 4 buf) \<le> length buf \<and>
    length (Preauth_HashValue srv) = 64 \<and> length pi_hash = 64"
  then show "\<exists>s h. calc_preauth_integrity_hash P srv SMB2_PREAUTH_INTEGRITY_SHA512 buf pi_hash =
         Some (0, s, h)"
    by (intro preauth_succeeds) simp_all
qed

lemma test_preauth_run:
  "\<exists>s. calc_preauth_integrity_hash test_prims (server test_sess) SMB2_PREAUTH_INTEGRITY_SHA512
         test_pdu (replicate 64 0xFF) = Some (0, s, replicate 62 0 @ [0x01, 0xE3])"
  by (simp add: calc_preauth_integrity_hash_def run_eval test_prims_def test_sess_def test_pdu_def
        digest_bytes_def upt_conv_Cons be_nat_def)

theorem preauth_integrity_hash_value_witness:
  "\<exists>s h. calc_preauth_integrity_hash test_prims (server test_sess) SMB2_PREAUTH_INTEGRITY_SHA512
         test_pdu (replicate 64 0xFF) = Some (0, s, h) \<and>
       h = digest_bytes 64 (sha512 test_prims (Preauth_HashValue (server test_sess) @
            [0xFE, 0x53, 0x4D, 0x42, 1, 2])) \<and>
       h = replicate 62 0 @ [0x01, 0xE3]"
proof -
  have m: "take (be_nat (take 4 test_pdu)) (drop 4 test_pdu) = [0xFE, 0x53, 0x4D, 0x42, 1, 2]"
    and b: "4 + be_nat (take 4 test_pdu) \<le> length test_pdu"
    by (simp_all add: test_pdu_def be_nat_def)
  have l: "length (Preauth_HashValue (server test_sess)) = 64"
    by (simp add: test_sess_def)
  from preauth_integrity_hash_value[of test_prims "server test_sess" test_pdu "replicate 64 0xFF"
      "server test_sess" "[]", THEN conjunct2] prims_ok_test b l
  have "\<exists>s h. calc_preauth_integrity_hash test_prims (server test_sess)
      SMB2_PREAUTH_INTEGRITY_SHA512 test_pdu (replicate 64 0xFF) = Some (0, s, h)"
    by simp
  then obtain s h
    where r: "calc_preauth_integrity_hash test_prims (server test_sess)
      SMB2_PREAUTH_INTEGRITY_SHA512 test_pdu (replicate 64 0xFF) = Some (0, s, h)"
    by blast
  from test_preauth_run r have h: "h = replicate 62 0 @ [0x01, 0xE3]" by auto
  from preauth_integrity_hash_value[of test_prims "server test_sess" test_pdu "replicate 64 0xFF"
      s h] r l m h
  show ?thesis by auto
qed

section \<open>NTLMv2: hash, session key and verification\<close>

lemma bind_if_iff:
  "(Option.bind (if c then x else y) f = Some r) =
   (\<exists>u. (if c then x else y) = Some u \<and> f u = Some r)"
  by (cases "if c then x else y") auto

lemma if_not_Some_iff:
  "((if \<not> c then Some x else y) = Some r) = ((\<not> c \<and> x = r) \<or> (c \<and> y = Some r))"
  by simp

lemma final_any:
  "crypto_shash_final P a out (server s) = Some (rc, out') \<Longrightarrow> hs s0 a k d s \<Longrightarrow>
     (rc \<noteq> 0 \<longrightarrow> out' = out) \<and>
     (rc = 0 \<longrightarrow> digestsize a \<le> length out \<and>
        out' = shash_digest P a k d @ drop (digestsize a) out)"
  unfolding final_Some_iff ctx_key_def ctx_data_def hs_def by (auto split: if_splits)

lemma take_terminated:
  "take (2 * length us) (take 0 m @ le16s (us @ [0]) @ r) = le16s us"
  by simp

lemma calc_cases:
  assumes "calc_ntlmv2_hash P sess h dname = Some (rc, sess', h')"
  shows "only_ctx sess sess' \<and> (rc \<noteq> 0 \<longrightarrow> h' = h) \<and>
    (rc = 0 \<longrightarrow> (\<exists>dn. dname = Some dn \<and> 16 \<le> length h \<and> 16 \<le> length (passkey (usr sess)) \<and>
       h' = digest_bytes 16 (hmac_md5 P (take 16 (passkey (usr sess)))
              (ntlmv2_hash_data P (usr sess) dn)) @ drop 16 h))"
proof (cases "secmech (server sess) HMAC_MD5 = None")
  case True
  with assms show ?thesis by (simp add: calc_ntlmv2_hash_def)
next
  case False
  show ?thesis
  proof (cases dname)
    case None
    from assms show ?thesis
      unfolding calc_ntlmv2_hash_def Let_def None
      apply (simp only: False if_False bind_rc_iff bind_pair_iff bind_if_iff if_not_Some_iff
          poke_bind if_None_eq_Some bind.bind_lzero)
      apply (elim disjE conjE exE)
      apply ((insert only_ctx_refl[of sess], (drule (1) step_keeps)+, simp add: ENOMEM_def)+)
      done
  next
    case (Some dn)
    from assms show ?thesis
      unfolding calc_ntlmv2_hash_def Let_def Some
      apply (simp only: False if_False bind_rc_iff bind_pair_iff bind_if_iff if_not_Some_iff
          poke_bind if_None_eq_Some bind.bind_lunit)
      apply (elim disjE conjE exE)
      apply ((insert only_ctx_refl[of sess], (drule (1) step_keeps)+, simp add: ENOMEM_def)+)[6]
      apply (insert only_ctx_refl[of sess])
      apply (drule (1) setkey_ctx, elim conjE)
      apply (drule (1) init_ctx)
      apply (drule (1) update_ctx, elim conjE)+
      apply (drule (1) final_any)
      apply (auto simp: hs_def only_ctx_def ntlmv2_hash_data_def UNICODE_LEN_def size_defs poke_def
               UniStrupr_terminated split: if_splits)
      done
  qed
qed

lemma only_ctx_only_key: "only_ctx s s' \<Longrightarrow> only_key s s'"
  by (simp add: only_key_def only_ctx_def)

lemma calc_keeps:
  "calc_ntlmv2_hash P s h dname = Some (rc, s', h') \<Longrightarrow> only_ctx s0 s \<Longrightarrow> only_ctx s0 s'"
  by (drule calc_cases) (simp add: only_ctx_def)

lemma if_Some_iff:
  "((if c then Some x else y) = Some r) = ((c \<and> x = r) \<or> (\<not> c \<and> y = Some r))"
  by simp

lemma bind_val_iff:
  "(Option.bind m (\<lambda>x. Some (f x)) = Some r) = (\<exists>x. m = Some x \<and> f x = r)"
  by (cases m) auto

lemma sess_key_cases:
  assumes "compute_sess_key P s hash hmac = Some (rc, s')"
  shows "only_key s s' \<and> (rc \<noteq> 0 \<longrightarrow> sess_key s' = sess_key s) \<and>
    (rc = 0 \<longrightarrow> 16 \<le> length hash \<and> 16 \<le> length hmac \<and> 16 \<le> length (sess_key s) \<and>
       sess_key s' = digest_bytes 16 (hmac_md5 P (take 16 hash) (take 16 hmac)) @
                     drop 16 (sess_key s))"
  using assms
  unfolding compute_sess_key_def crypto_hmacmd5_alloc_def
  apply (simp only: bind_rc_iff bind_pair_iff)
  apply (elim disjE conjE exE)
  apply ((insert only_ctx_refl[of s], (drule (1) step_keeps)+,
          simp add: only_key_def only_ctx_def)+)[4]
  apply (insert only_ctx_refl[of s])
  apply (drule (1) alloc_keeps)
  apply (drule (1) setkey_ctx, elim conjE)
  apply (drule (1) init_ctx)
  apply (drule (1) update_ctx, elim conjE)
  apply (drule (1) final_any)
  apply (auto simp: hs_def only_ctx_def only_key_def size_defs)
  done

lemmas keeps = step_keeps calc_keeps

lemma sess_key_keeps:
  "compute_sess_key P s a b = Some (rc, s') \<Longrightarrow> only_ctx s0 s \<Longrightarrow>
     only_key s0 s' \<and> (rc \<noteq> 0 \<longrightarrow> sess_key s' = sess_key s0)"
  by (drule sess_key_cases) (auto simp: only_ctx_def only_key_def)

lemma ntlmv2_cases:
  assumes "process_ntlmv2 P sess ntlmv2 blen dname = Some (rc, sess')"
  shows "only_key sess sess' \<and>
    (sess_key sess' = sess_key sess \<or>
     (\<exists>dn H rsp. dname = Some dn \<and> 0 \<le> blen \<and>
        H = digest_bytes 16 (hmac_md5 P (take 16 (passkey (usr sess)))
              (ntlmv2_hash_data P (usr sess) dn)) \<and>
        rsp = digest_bytes 16 (hmac_md5 P H
              (take 8 (cryptkey (ntlmssp sess)) @ take (nat blen) (drop 16 ntlmv2))) \<and>
        memcmp ntlmv2 rsp 16 = Some rc \<and>
        sess_key sess' = digest_bytes 16 (hmac_md5 P H rsp) @ drop 16 (sess_key sess)))"
  using assms
  unfolding process_ntlmv2_def Let_def crypto_hmacmd5_alloc_def
  apply (simp only: bind_rc_iff bind_rc3_iff bind_pair_iff bind_val_iff bind_if_iff if_Some_iff
      peek_bind poke_bind if_None_eq_Some)
  apply (elim disjE conjE exE)
  apply ((insert only_ctx_refl[of sess], (drule (1) keeps)+,
          simp add: only_key_def only_ctx_def)+)[8]
  apply (insert only_ctx_refl[of sess], (drule (1) keeps)+, drule (1) sess_key_keeps, simp)
  apply (insert only_ctx_refl[of sess])
  apply (drule (1) alloc_keeps)
  apply (frule calc_cases)
  apply (drule (1) calc_keeps)
  apply (drule (1) setkey_ctx, elim conjE)
  apply (drule (1) init_ctx)
  apply (drule (1) update_ctx, elim conjE)
  apply (drule (1) final_any)
  apply (drule sess_key_cases)
  apply (auto simp: hs_def only_ctx_def only_key_def size_defs nat_add_distrib peek_def
           split: if_splits)
  done

section \<open>The challenge message and its target information\<close>

declare tinfo_loop.simps [simp del]

lemma poke_length: "poke m off bs = Some m' \<Longrightarrow> length m' = length m"
  by (auto simp: poke_def split: if_splits)

lemma poke_poke:
  "poke m off a = Some m1 \<Longrightarrow> poke m1 (off + length a) b = Some m2 \<Longrightarrow>
     poke m off (a @ b) = Some m2"
  by (auto simp: poke_def ac_simps split: if_splits)

lemma peek_poke: "poke m off bs = Some m' \<Longrightarrow> peek m' off (length bs) = Some bs"
  by (auto simp: poke_def peek_def split: if_splits)

lemma tinfo_loop_poke:
  "tinfo_loop name len type tail tinfo tlen = Some (tail', tinfo', tlen') \<Longrightarrow> type \<le> 5 \<Longrightarrow>
     (type < 5 \<longrightarrow>
        poke tail tinfo
          (concat (map (\<lambda>t. le16 (of_nat t) @ le16 (of_nat len) @ take len name) [type..<5])) =
          Some tail' \<and> len \<le> length name) \<and>
     (type = 5 \<longrightarrow> tail' = tail) \<and>
     tinfo' = tinfo + (5 - type) * (4 + len) \<and>
     tlen' = tlen + of_nat ((5 - type) * (4 + len))"
proof (induction name len type tail tinfo tlen rule: tinfo_loop.induct)
  case (1 name len type tail tinfo tlen)
  show ?case
  proof (cases "type \<le> NTLMSSP_AV_DNS_DOMAIN_NAME")
    case False
    with "1.prems" have "type = 5" by (simp add: NTLMSSP_AV_DNS_DOMAIN_NAME_def)
    moreover from "1.prems"(1) False have "tail' = tail \<and> tinfo' = tinfo \<and> tlen' = tlen"
      by (subst (asm) tinfo_loop.simps) simp
    ultimately show ?thesis by simp
  next
    case True
    then have t: "type < 5" by (simp add: NTLMSSP_AV_DNS_DOMAIN_NAME_def)
    from "1.prems"(1) True obtain tail1 tail2 content tail3
      where p1: "poke tail tinfo (le16 (of_nat type)) = Some tail1"
        and p2: "poke tail1 (tinfo + 2) (le16 (of_nat len)) = Some tail2"
        and c: "peek name 0 len = Some content"
        and p3: "poke tail2 (tinfo + 4) content = Some tail3"
        and r: "tinfo_loop name len (type + 1) tail3 (tinfo + 4 + len) (tlen + of_nat (4 + len)) =
          Some (tail', tinfo', tlen')"
      by (subst (asm) tinfo_loop.simps) (auto split: option.splits)
    from c have len: "len \<le> length name" and content: "content = take len name"
      by (auto simp: peek_def split: if_splits)
    let ?rest = "concat (map (\<lambda>t. le16 (of_nat t) @ le16 (of_nat len) @ take len name)
        [type + 1..<5])"
    from "1.IH"[OF True p1 p2 c p3 r] t
    have ih: "type + 1 < 5 \<Longrightarrow> poke tail3 (tinfo + 4 + len) ?rest = Some tail'"
      and ih5: "type + 1 = 5 \<Longrightarrow> tail' = tail3"
      and i: "tinfo' = tinfo + 4 + len + (5 - (type + 1)) * (4 + len)"
      and l: "tlen' = tlen + of_nat (4 + len) + of_nat ((5 - (type + 1)) * (4 + len))"
      by simp_all
    let ?T = "le16 (of_nat type) :: bytes" and ?L = "le16 (of_nat len) :: bytes"
    have "poke tail1 (tinfo + length ?T) ?L = Some tail2"
      using p2 by simp
    from poke_poke[OF p1 this]
    have p12: "poke tail tinfo (?T @ ?L) = Some tail2" .
    have "poke tail2 (tinfo + length (?T @ ?L)) content = Some tail3"
      using p3 by simp
    from poke_poke[OF p12 this]
    have p: "poke tail tinfo ((?T @ ?L) @ content) = Some tail3" .
    have "poke tail tinfo (((?T @ ?L) @ content) @ ?rest) = Some tail'"
    proof (cases "type + 1 < 5")
      case True
      with ih have "poke tail3 (tinfo + length ((?T @ ?L) @ content)) ?rest = Some tail'"
        using len by (simp add: content eval_nat_numeral)
      from poke_poke[OF p this] show ?thesis .
    next
      case False
      with t have "type + 1 = 5" by simp
      with ih5 p show ?thesis by simp
    qed
    moreover have "[type..<5] = type # [type + 1..<5]"
      using t by (simp add: upt_conv_Cons)
    moreover have "(5 - type) * (4 + len) = (4 + len) + (5 - (type + 1)) * (4 + len)"
      using t by (cases "5 - type") (simp_all add: Suc_diff_le)
    ultimately show ?thesis
      using i l len t by (simp add: content)
  qed
qed

lemma bind_triple_iff:
  "(Option.bind m (\<lambda>(a, b, c). f a b c) = Some r) = (\<exists>a b c. m = Some (a, b, c) \<and> f a b c = Some r)"
  by (cases m) auto

lemma bind_Some_iff_poke:
  "(Option.bind (poke m off bs) f = Some r) = (\<exists>m'. poke m off bs = Some m' \<and> f m' = Some r)"
  by (cases "poke m off bs") auto

lemma bind_Some_iff_peek:
  "(Option.bind (peek m off n) f = Some r) = (\<exists>bs. peek m off n = Some bs \<and> f bs = Some r)"
  by (cases "peek m off n") auto

lemma unat_small16: "n < 65536 \<Longrightarrow> unat (of_nat n :: u16) = n"
  by (simp add: unat_of_nat)

lemma target_info_written:
  assumes "poke tail 0 nm = Some tail1"
    and "poke tail1 (length nm) attrs = Some tail2"
    and "poke tail2 (length nm + length attrs) term = Some tail'"
  shows "peek tail' 0 (length nm) = Some nm"
    and "peek tail' (length nm) (length attrs + length term) = Some (attrs @ term)"
proof -
  from poke_poke[OF assms(2,3)] have p: "poke tail1 (length nm) (attrs @ term) = Some tail'" .
  from peek_poke[OF p] show "peek tail' (length nm) (length attrs + length term) =
      Some (attrs @ term)" by simp
  from p assms(1) show "peek tail' 0 (length nm) = Some nm"
    by (auto simp: poke_def peek_def split: if_splits)
qed

lemma challenge_cases:
  assumes "build_ntlmssp_challenge_blob P rnd chgblob tail sess =
      Some (blob_len, chgblob', tail', sess')"
    and "name = le16s (smb_strtoUTF16 P (netbios_name P))" and "len = length name"
  shows "len \<le> 14 \<and>
     peek tail' 0 len = Some name \<and>
     peek tail' len (4 * (4 + len) + 4) =
       Some (concat (map (\<lambda>t. le16 (of_nat t) @ le16 (of_nat len) @ name) [1..<5]) @
             le16 0 @ le16 0) \<and>
     TargetInfoArray chgblob' =
       \<lparr>Length = of_nat (4 * (4 + len) + 4), MaximumLength = of_nat (4 * (4 + len) + 4),
        BufferOffset = of_nat (sizeof_CHALLENGE_MESSAGE + len)\<rparr> \<and>
     blob_len = sizeof_CHALLENGE_MESSAGE + len + (4 * (4 + len) + 4)"
proof -
  let ?units = "smb_strtoUTF16 P (netbios_name P)"
  from assms(1) obtain name8 nm tail1 tail2 tinfo tlen
    where n8: "poke (replicate 16 0) 0 (le16s (?units @ [0])) = Some name8"
      and nm: "peek name8 0 (2 * length ?units) = Some nm"
      and t1: "poke tail 0 nm = Some tail1"
      and lp: "tinfo_loop name8 (2 * length ?units) 1 tail1 (2 * length ?units) 0 =
          Some (tail2, tinfo, tlen)"
      and t2: "poke tail2 tinfo (le16 0 @ le16 0) = Some tail'"
      and bl: "blob_len = ((48 + 2 * length ?units) mod 65536 + unat (tlen + 4)) mod 4294967296"
      and cb: "TargetInfoArray chgblob' =
          (TargetInfoArray chgblob)\<lparr>BufferOffset := 48 + of_nat (2 * length ?units),
             Length := tlen + 4, MaximumLength := tlen + 4\<rparr>"
    unfolding build_ntlmssp_challenge_blob_def Let_def
    apply (simp only: bind_Some_iff_poke bind_Some_iff_peek bind_triple_iff)
    apply (elim exE conjE)
    apply (clarsimp simp: sizeof_CHALLENGE_MESSAGE_def NTLMSSP_AV_NB_COMPUTER_NAME_def
        UNICODE_LEN_def unat_of_nat simp del: le16s_append of_nat_mult of_nat_add)
    done
  define n where "n = length ?units"
  have len: "len = 2 * n" by (simp add: assms(2,3) n_def)
  from n8 have n7: "n \<le> 7" and name8: "take (2 * n) name8 = name"
    by (auto simp: poke_def n_def assms(2) split: if_splits)
  from nm have nm_eq: "nm = name" and lnm: "length nm = len"
    using name8 len by (auto simp: peek_def n_def split: if_splits)
  let ?attrs = "concat (map (\<lambda>t. le16 (of_nat t) @ le16 (of_nat len) @ name) [1..<5])"
  from tinfo_loop_poke[OF lp] name8
  have a: "poke tail1 len ?attrs = Some tail2"
    and ti: "tinfo = len + 4 * (4 + len)"
    and tl: "tlen = of_nat (4 * (4 + len))"
    by (simp_all add: len n_def)
  have la: "length ?attrs = 4 * (4 + len)"
    by (simp add: upt_conv_Cons assms(3))
  have a': "poke tail1 (length nm) ?attrs = Some tail2"
    using a lnm by simp
  have t2': "poke tail2 (length nm + length ?attrs) (le16 0 @ le16 0) = Some tail'"
    using t2 ti la lnm by simp
  note w = target_info_written[OF t1 a' t2']
  have u: "unat (of_nat (4 * (4 + len)) + 4 :: u16) = 4 * (4 + len) + 4"
  proof -
    have "(of_nat (4 * (4 + len)) + 4 :: u16) = of_nat (4 * (4 + len) + 4)" by simp
    moreover have "4 * (4 + len) + 4 < 65536" using len n7 by simp
    ultimately show ?thesis by (simp only: unat_small16)
  qed
  have "len \<le> 14" using len n7 by simp
  moreover have "peek tail' 0 len = Some name" using w(1) nm_eq lnm by simp
  moreover have "peek tail' len (4 * (4 + len) + 4) = Some (?attrs @ le16 0 @ le16 0)"
    using w(2) la lnm by simp
  moreover have "TargetInfoArray chgblob' =
       \<lparr>Length = of_nat (4 * (4 + len) + 4), MaximumLength = of_nat (4 * (4 + len) + 4),
        BufferOffset = of_nat (sizeof_CHALLENGE_MESSAGE + len)\<rparr>"
    using cb tl len
    by (cases "TargetInfoArray chgblob") (simp add: sizeof_CHALLENGE_MESSAGE_def n_def)
  moreover have "blob_len = sizeof_CHALLENGE_MESSAGE + len + (4 * (4 + len) + 4)"
    using bl tl u len n7 by (simp add: sizeof_CHALLENGE_MESSAGE_def n_def[symmetric])
  ultimately show ?thesis by simp
qed

lemma tinfo_loop_succeeds:
  "type \<le> 5 \<Longrightarrow> len \<le> length name \<Longrightarrow> tinfo + (5 - type) * (4 + len) \<le> length tail \<Longrightarrow>
     \<exists>tail'. tinfo_loop name len type tail tinfo tlen =
        Some (tail', tinfo + (5 - type) * (4 + len), tlen + of_nat ((5 - type) * (4 + len))) \<and>
        length tail' = length tail"
proof (induction name len type tail tinfo tlen rule: tinfo_loop.induct)
  case (1 name len type tail tinfo tlen)
  show ?case
  proof (cases "type \<le> NTLMSSP_AV_DNS_DOMAIN_NAME")
    case False
    with "1.prems" have "type = 5" by (simp add: NTLMSSP_AV_DNS_DOMAIN_NAME_def)
    with False show ?thesis by (subst tinfo_loop.simps) simp
  next
    case True
    then have t: "type < 5" by (simp add: NTLMSSP_AV_DNS_DOMAIN_NAME_def)
    have m: "(5 - type) * (4 + len) = (4 + len) + (5 - (type + 1)) * (4 + len)"
      using t by (cases "5 - type") (simp_all add: Suc_diff_le)
    with "1.prems" have b: "tinfo + 4 + len \<le> length tail" by simp
    obtain tail1 where p1: "poke tail tinfo (le16 (of_nat type)) = Some tail1"
      and l1: "length tail1 = length tail"
      using b by (auto simp: poke_def)
    obtain tail2 where p2: "poke tail1 (tinfo + 2) (le16 (of_nat len)) = Some tail2"
      and l2: "length tail2 = length tail"
      using b l1 by (auto simp: poke_def)
    have c: "peek name 0 len = Some (take len name)"
      using "1.prems" by (simp add: peek_def)
    obtain tail3 where p3: "poke tail2 (tinfo + 4) (take len name) = Some tail3"
      and l3: "length tail3 = length tail"
      using b l2 "1.prems" by (auto simp: poke_def)
    have "type + 1 \<le> 5" using t by simp
    moreover have "tinfo + 4 + len + (5 - (type + 1)) * (4 + len) \<le> length tail3"
      using "1.prems" m l3 by simp
    ultimately obtain tail' where r: "tinfo_loop name len (type + 1) tail3 (tinfo + 4 + len)
          (tlen + of_nat (4 + len)) =
        Some (tail', tinfo + 4 + len + (5 - (type + 1)) * (4 + len),
              tlen + of_nat (4 + len) + of_nat ((5 - (type + 1)) * (4 + len)))"
      and l': "length tail' = length tail3"
      using "1.IH"[OF True p1 p2 c p3] "1.prems"(2) by blast
    have "tinfo_loop name len type tail tinfo tlen =
        tinfo_loop name len (type + 1) tail3 (tinfo + 4 + len) (tlen + of_nat (4 + len))"
      using True p1 p2 c p3 by (subst tinfo_loop.simps) simp
    with r l' l3 m show ?thesis by (simp add: ac_simps)
  qed
qed

lemma challenge_succeeds:
  assumes "length (smb_strtoUTF16 P (netbios_name P)) \<le> 7"
    and "8 \<le> length (cryptkey (ntlmssp sess))"
    and "10 * length (smb_strtoUTF16 P (netbios_name P)) + 20 \<le> length tail"
  shows "\<exists>r. build_ntlmssp_challenge_blob P rnd chgblob tail sess = Some r"
proof -
  let ?units = "smb_strtoUTF16 P (netbios_name P)"
  define n where "n = length ?units"
  have n7: "n \<le> 7" and tl: "10 * n + 20 \<le> length tail"
    using assms by (simp_all add: n_def)
  obtain name8 where n8: "poke (replicate (2 * 8) 0) 0 (le16s (?units @ [0])) = Some name8"
    and l8: "length name8 = 16"
    using n7 by (auto simp: poke_def n_def)
  obtain ck where ck: "poke (cryptkey (ntlmssp sess)) 0 (digest_bytes 8 rnd) = Some ck"
    and lck: "length ck = length (cryptkey (ntlmssp sess))"
    using assms(2) by (auto simp: poke_def)
  obtain ch where ch: "peek ck 0 CIFS_CRYPTO_KEY_SIZE = Some ch"
    using assms(2) lck by (auto simp: peek_def size_defs)
  obtain nm where nm: "peek name8 0 (2 * n) = Some nm" and lnm: "length nm = 2 * n"
    using n7 l8 by (auto simp: peek_def)
  obtain tail1 where t1: "poke tail 0 nm = Some tail1" and lt1: "length tail1 = length tail"
    using tl lnm by (auto simp: poke_def)
  have "2 * n \<le> length name8" using n7 l8 by simp
  moreover have "2 * n + (5 - 1) * (4 + 2 * n) \<le> length tail1" using tl lt1 by simp
  ultimately obtain tail2 where lp: "tinfo_loop name8 (2 * n) 1 tail1 (2 * n) 0 =
      Some (tail2, 2 * n + (5 - 1) * (4 + 2 * n), 0 + of_nat ((5 - 1) * (4 + 2 * n)))"
    and lt2: "length tail2 = length tail1"
    using tinfo_loop_succeeds[of 1 "2 * n" name8 "2 * n" tail1 0] by auto
  obtain tail3 where t3: "poke tail2 (2 * n + (5 - 1) * (4 + 2 * n)) (le16 0 @ le16 0) = Some tail3"
    using tl lt1 lt2 by (auto simp: poke_def)
  show ?thesis
    using n8 ck ch nm t1 lp t3
    unfolding build_ntlmssp_challenge_blob_def Let_def
    by (simp add: n_def[symmetric] UNICODE_LEN_def sizeof_CHALLENGE_MESSAGE_def
          NTLMSSP_AV_NB_COMPUTER_NAME_def)
qed


lemma test_challenge_run:
  "\<exists>c t s. build_ntlmssp_challenge_blob test_prims 0x1122334455667788 test_chgblob
       (replicate 80 0xEE) test_sess = Some (108, c, t, s)"
  by (simp add: build_ntlmssp_challenge_blob_def tinfo_loop.simps test_prims_def test_sess_def
        test_chgblob_def peek_def poke_def Let_def replicate_num ascii_def le16s_def le16_def
        UNICODE_LEN_def digest_bytes_def upt_conv_Cons size_defs sizeof_CHALLENGE_MESSAGE_def
        NTLMSSP_AV_NB_COMPUTER_NAME_def NTLMSSP_AV_DNS_DOMAIN_NAME_def)


section \<open>The value of the NTLMv2 hash\<close>

lemma calc_succeeds:
  assumes "prims_ok P"
    and "secmech (server sess) HMAC_MD5 \<noteq> None"
    and "16 \<le> length (passkey (usr sess))" and "16 \<le> length h"
    and "length (smb_strtoUTF16 P (usr_name (usr sess))) \<le> length (usr_name (usr sess))"
    and "length (smb_strtoUTF16 P dn) \<le> length dn"
  shows "\<exists>sess' h'. calc_ntlmv2_hash P sess h (Some dn) = Some (0, sess', h')"
  using assms
  by (cases "secmech (server sess) HMAC_MD5")
     (simp_all add: calc_ntlmv2_hash_def prims_ok_def step_defs UNICODE_LEN_def)

text \<open>
  Claim C7: without an HMAC-MD5 context on the connection, \<open>calc_ntlmv2_hash\<close> returns the
  error \<open>-1\<close> and leaves session and output buffer as they were. When it returns 0 (NT hash
  and output buffer of 16 bytes, a conversion that maps the empty string to the empty
  string), the output is HMAC-MD5, keyed by the NT hash, of the upper-cased UTF-16 account
  name followed by the UTF-16 target name, which is not upper-cased. And it does return 0
  when the context exists, every step of the hash interface and every allocation succeeds,
  and the conversion yields no more units than its input has bytes.
\<close>

theorem ntlmv2_hash_value:
  "(secmech (server sess) HMAC_MD5 = None \<longrightarrow>
      calc_ntlmv2_hash P sess h dname = Some (- 1, sess, h)) \<and>
   (calc_ntlmv2_hash P sess h (Some dn) = Some (0, sess', h') \<and>
    length h = 16 \<and> length (passkey (usr sess)) = 16 \<and> smb_strtoUTF16 P [] = [] \<longrightarrow>
      h' = digest_bytes 16 (hmac_md5 P (passkey (usr sess))
             (le16s (UniStrupr P (smb_strtoUTF16 P (usr_name (usr sess)))) @
              le16s (smb_strtoUTF16 P dn)))) \<and>
   (prims_ok P \<and> secmech (server sess) HMAC_MD5 \<noteq> None \<and>
    length h = 16 \<and> length (passkey (usr sess)) = 16 \<and>
    length (smb_strtoUTF16 P (usr_name (usr sess))) \<le> length (usr_name (usr sess)) \<and>
    length (smb_strtoUTF16 P dn) \<le> length dn \<longrightarrow>
      (\<exists>s k. calc_ntlmv2_hash P sess h (Some dn) = Some (0, s, k)))"
proof (intro conjI impI)
  assume "secmech (server sess) HMAC_MD5 = None"
  then show "calc_ntlmv2_hash P sess h dname = Some (- 1, sess, h)"
    by (simp add: calc_ntlmv2_hash_def)
next
  assume a: "calc_ntlmv2_hash P sess h (Some dn) = Some (0, sess', h') \<and>
    length h = 16 \<and> length (passkey (usr sess)) = 16 \<and> smb_strtoUTF16 P [] = []"
  then have r: "calc_ntlmv2_hash P sess h (Some dn) = Some (0, sess', h')" by simp
  have "ntlmv2_hash_data P (usr sess) dn =
      le16s (UniStrupr P (smb_strtoUTF16 P (usr_name (usr sess)))) @ le16s (smb_strtoUTF16 P dn)"
    using a by (simp add: ntlmv2_hash_data_def UniStrupr_def le16s_def)
  with calc_cases[OF r] a
  show "h' = digest_bytes 16 (hmac_md5 P (passkey (usr sess))
             (le16s (UniStrupr P (smb_strtoUTF16 P (usr_name (usr sess)))) @
              le16s (smb_strtoUTF16 P dn)))"
    by simp
next
  assume "prims_ok P \<and> secmech (server sess) HMAC_MD5 \<noteq> None \<and>
    length h = 16 \<and> length (passkey (usr sess)) = 16 \<and>
    length (smb_strtoUTF16 P (usr_name (usr sess))) \<le> length (usr_name (usr sess)) \<and>
    length (smb_strtoUTF16 P dn) \<le> length dn"
  then show "\<exists>s k. calc_ntlmv2_hash P sess h (Some dn) = Some (0, s, k)"
    by (intro calc_succeeds) simp_all
qed

lemmas hash_eval =
  run_eval test_prims_def test_sess_def digest_bytes_def upt_conv_Cons UNICODE_LEN_def le16s_def
  le16_def UniStrupr_def ENOMEM_def EINVAL_def

lemma test_calc_run:
  "\<exists>s. calc_ntlmv2_hash test_prims test_sess_md5 (replicate 16 0xFF) (Some (ascii ''FSRV'')) =
         Some (0, s, replicate 14 0 @ [2, 0xAF])"
  by (simp add: calc_ntlmv2_hash_def test_sess_md5_def hash_eval)

theorem ntlmv2_hash_value_witness:
  "calc_ntlmv2_hash test_prims test_sess (replicate 16 0xFF) None =
     Some (- 1, test_sess, replicate 16 0xFF) \<and>
   (\<exists>s k. calc_ntlmv2_hash test_prims test_sess_md5 (replicate 16 0xFF) (Some (ascii ''FSRV'')) =
         Some (0, s, k) \<and>
        k = digest_bytes 16 (hmac_md5 test_prims (passkey (usr test_sess_md5))
          (le16s (UniStrupr test_prims (smb_strtoUTF16 test_prims (usr_name (usr test_sess_md5)))) @
           le16s (smb_strtoUTF16 test_prims (ascii ''FSRV'')))) \<and>
        k = replicate 14 0 @ [2, 0xAF])"
proof -
  have a: "secmech (server test_sess) HMAC_MD5 = None"
    and a': "secmech (server test_sess_md5) HMAC_MD5 \<noteq> None"
    and b: "length (passkey (usr test_sess_md5)) = 16"
    and c: "smb_strtoUTF16 test_prims [] = []"
    and d: "length (smb_strtoUTF16 test_prims (usr_name (usr test_sess_md5))) \<le>
        length (usr_name (usr test_sess_md5))"
      "length (smb_strtoUTF16 test_prims (ascii ''FSRV'')) \<le> length (ascii ''FSRV'')"
    by (simp_all add: test_sess_def test_sess_md5_def test_prims_def)
  from ntlmv2_hash_value[of test_sess test_prims "replicate 16 0xFF" None, THEN conjunct1] a
  have 1: "calc_ntlmv2_hash test_prims test_sess (replicate 16 0xFF) None =
     Some (- 1, test_sess, replicate 16 0xFF)" by blast
  from ntlmv2_hash_value[of test_sess_md5 test_prims "replicate 16 0xFF" None "ascii ''FSRV''"
      test_sess "[]", THEN conjunct2, THEN conjunct2] prims_ok_test a' b d
  have "\<exists>s k. calc_ntlmv2_hash test_prims test_sess_md5 (replicate 16 0xFF)
      (Some (ascii ''FSRV'')) = Some (0, s, k)"
    by simp
  then obtain s k
    where r: "calc_ntlmv2_hash test_prims test_sess_md5 (replicate 16 0xFF)
      (Some (ascii ''FSRV'')) = Some (0, s, k)" by blast
  from test_calc_run r have k: "k = replicate 14 0 @ [2, 0xAF]" by auto
  from ntlmv2_hash_value[of test_sess_md5 test_prims "replicate 16 0xFF" None "ascii ''FSRV''"
      s k, THEN conjunct2, THEN conjunct1] r b c
  have "k = digest_bytes 16 (hmac_md5 test_prims (passkey (usr test_sess_md5))
          (le16s (UniStrupr test_prims (smb_strtoUTF16 test_prims (usr_name (usr test_sess_md5)))) @
           le16s (smb_strtoUTF16 test_prims (ascii ''FSRV''))))" by simp
  with 1 r k show ?thesis by blast
qed

section \<open>Session state after a verification\<close>

lemma process_ntlm_cases:
  assumes "process_ntlm P sess pw_buf = Some (rc, sess')"
  shows "if fst (E_P24 P (take 16 (passkey (usr sess)) @ replicate 5 0)
                    (take 8 (cryptkey (ntlmssp sess)))) \<noteq> 0
         then sess' = sess \<and> rc \<noteq> 0
         else sess' = sess\<lparr>sess_key :=
                  digest_bytes 16 (smb_mdfour P (take 16 (passkey (usr sess)))) @
                  digest_bytes 24 (snd (E_P24 P (take 16 (passkey (usr sess)) @ replicate 5 0)
                                          (take 8 (cryptkey (ntlmssp sess))))) @
                  drop 40 (sess_key sess),
                sequence_number := 1\<rparr>"
  using assms unfolding process_ntlm_def
  by (auto simp: peek_def poke_def Let_def size_defs split: if_splits prod.splits
        simp: Option.bind_eq_Some_conv)


lemma test_ntlm_run:
  "\<exists>s. process_ntlm test_prims test_sess (replicate 24 1) = Some (- EINVAL, s)"
  by (simp add: process_ntlm_def hash_eval be_nat_def)

lemma test_ntlmv2_run:
  "\<exists>s. process_ntlmv2 test_prims test_sess (replicate 24 0) 8 (Some (ascii ''FSRV'')) =
         Some (- 213, s) \<and>
       sess_key s = replicate 14 0 @ [1, 0x86] @ replicate 24 0"
  by (simp add: process_ntlmv2_def calc_ntlmv2_hash_def compute_sess_key_def hash_eval)


end
